(* ===== verification/Prelude.thy ===== *)
theory Prelude
  imports Main "HOL-Library.Word"
begin

text \<open>
  Shared vocabulary of the development. JavaScript strings are sequences of UTF-16
  code units, so a string of the program is a list of 16-bit words; \<open>jstr\<close> turns an
  ASCII literal of the source into that form. A computation that may throw is a value
  of the sum type \<open>'e + 'a\<close> (\<open>Inl\<close> the thrown error), sequenced by \<open>res_bind\<close>,
  so that every \<^verbatim>\<open>throw\<close> and every \<^verbatim>\<open>catch\<close> of the source is a branch of the model.
\<close>

type_synonym code_unit = "16 word"
type_synonym jstring = "code_unit list"

named_theorems js_simps "evaluation rules of the JavaScript value layer"
named_theorems page_simps "unfolding rules of the page handlers"

definition jstr :: "string \<Rightarrow> jstring" where
  "jstr s = map (\<lambda>c. of_char c) s"

definition res_bind :: "'e + 'a \<Rightarrow> ('a \<Rightarrow> 'e + 'b) \<Rightarrow> 'e + 'b" where
  "res_bind m f = (case m of Inl e \<Rightarrow> Inl e | Inr a \<Rightarrow> f a)"

lemma res_bind_Inl [simp]: "res_bind (Inl e) f = Inl e"
  by (simp add: res_bind_def)

lemma res_bind_Inr [simp]: "res_bind (Inr a) f = f a"
  by (simp add: res_bind_def)

lemma res_bind_eq_Inr:
  "res_bind m f = Inr b \<longleftrightarrow> (\<exists>a. m = Inr a \<and> f a = Inr b)"
  by (cases m) auto

lemma res_bind_eq_Inl:
  "res_bind m f = Inl e \<longleftrightarrow> m = Inl e \<or> (\<exists>a. m = Inr a \<and> f a = Inl e)"
  by (cases m) auto

lemma unat_of_char: "unat (of_char c :: code_unit) = of_char c"
proof -
  have "(of_char c :: code_unit) = of_nat (of_char c)" by (simp add: of_nat_of_char)
  moreover have "(of_char c :: nat) < 2 ^ LENGTH(16)"
    using nat_of_char_less_256 [of c] by (simp del: nat_of_char_less_256)
  ultimately show ?thesis by (simp add: unat_of_nat del: of_nat_of_char)
qed

lemma of_char_code_unit_eq: "(of_char c :: code_unit) = of_char d \<longleftrightarrow> c = d"
  by (metis unat_of_char of_char_eq_iff)

lemma jstr_eq_iff [simp]: "jstr s = jstr t \<longleftrightarrow> s = t"
  by (simp add: jstr_def inj_map_eq_map inj_def of_char_code_unit_eq)

lemma jstr_append [simp]: "jstr (s @ t) = jstr s @ jstr t"
  by (simp add: jstr_def)

lemma length_jstr [simp]: "length (jstr s) = length s"
  by (simp add: jstr_def)

lemma jstr_Nil_iff [simp]: "jstr s = [] \<longleftrightarrow> s = []"
  by (simp add: jstr_def)

end
