(* ===== verification/JsValue.thy ===== *)
theory JsValue
  imports Prelude
begin

text \<open>
  The JavaScript values the client handles: the values \<^verbatim>\<open>res.json()\<close> produces
  (null, booleans, numbers, strings, arrays, objects) and \<^verbatim>\<open>undefined\<close>, the
  result of reading a missing property. Objects are association lists in property
  order, as \<^verbatim>\<open>JSON.parse\<close> builds them. A number is written as the integer it
  denotes: the ids and timestamps the client sees are integral doubles. The
  operations are the language semantics the source relies on: truthiness (for
  \<^verbatim>\<open>||\<close>, \<^verbatim>\<open>!\<close> and \<^verbatim>\<open>? :\<close>), property read (which throws a TypeError on null and
  undefined), property write, object spread, ToString (for \<^verbatim>\<open>'/' + task.id\<close>,
  \<^verbatim>\<open>dataset.id\<close> and \<^verbatim>\<open>textContent\<close>) and the time value of \<^verbatim>\<open>new Date(x)\<close>.
\<close>

datatype jv =
    Undef
  | Null
  | Bool bool
  | Num int
  | Str jstring
  | Arr "jv list"
  | Obj "(jstring \<times> jv) list"

text \<open>The exceptions the program can meet, thrown by itself, by the runtime or by
  \<^verbatim>\<open>fetch\<close>.\<close>

datatype js_error =
    HttpError int jstring   \<comment> \<open>\<^verbatim>\<open>new Error(`HTTP ${res.status} - ${text}`)\<close>, app.js line 16\<close>
  | FetchFailed jstring     \<comment> \<open>\<^verbatim>\<open>fetch\<close> rejected: the network failed\<close>
  | JsonSyntaxError jstring \<comment> \<open>\<^verbatim>\<open>res.json()\<close> rejected: the body is not JSON\<close>
  | NullAccess jstring      \<comment> \<open>TypeError: a property read on null or undefined\<close>

subsection \<open>Truthiness\<close>

fun truthy :: "jv \<Rightarrow> bool" where
  "truthy Undef = False"
| "truthy Null = False"
| "truthy (Bool b) = b"
| "truthy (Num n) = (n \<noteq> 0)"
| "truthy (Str s) = (s \<noteq> [])"
| "truthy (Arr xs) = True"
| "truthy (Obj kvs) = True"

text \<open>\<^verbatim>\<open>a || b\<close>: the left operand when it is truthy, else the right one.\<close>

definition js_or :: "jv \<Rightarrow> jv \<Rightarrow> jv" where
  "js_or a b = (if truthy a then a else b)"

subsection \<open>Property access\<close>

definition obj_lookup :: "(jstring \<times> jv) list \<Rightarrow> jstring \<Rightarrow> jv" where
  "obj_lookup kvs k = (case map_of kvs k of None \<Rightarrow> Undef | Some v \<Rightarrow> v)"

text \<open>
  \<^verbatim>\<open>v.k\<close> for the named properties the program reads (\<^verbatim>\<open>id\<close>, \<^verbatim>\<open>title\<close>,
  \<^verbatim>\<open>completed\<close>, \<^verbatim>\<open>createdAt\<close>): an own property of an object, undefined on any
  other non-null value (no prototype defines these names), a TypeError on null and
  undefined.
\<close>

fun get_prop :: "jv \<Rightarrow> jstring \<Rightarrow> js_error + jv" where
  "get_prop Undef k = Inl (NullAccess k)"
| "get_prop Null k = Inl (NullAccess k)"
| "get_prop (Obj kvs) k = Inr (obj_lookup kvs k)"
| "get_prop v k = Inr Undef"

text \<open>Defining a property on a fresh object (\<^verbatim>\<open>{...o, k: v}\<close>, \<^verbatim>\<open>o.k = v\<close> on an
  ordinary object): an existing key keeps its place, a new key goes last.\<close>

fun obj_set :: "(jstring \<times> jv) list \<Rightarrow> jstring \<Rightarrow> jv \<Rightarrow> (jstring \<times> jv) list" where
  "obj_set [] k v = [(k, v)]"
| "obj_set ((k', v') # kvs) k v =
     (if k' = k then (k, v) # kvs else (k', v') # obj_set kvs k v)"

text \<open>
  \<^verbatim>\<open>o.k = v\<close> in a classic (sloppy-mode) script: an object gets the property; a
  write to a primitive is silently dropped; null and undefined throw. (An array
  target would get a named property the array representation has no room for;
  the program writes only to the task objects its list was built from.)
\<close>

fun set_prop :: "jv \<Rightarrow> jstring \<Rightarrow> jv \<Rightarrow> js_error + jv" where
  "set_prop Undef k v = Inl (NullAccess k)"
| "set_prop Null k v = Inl (NullAccess k)"
| "set_prop (Obj kvs) k v = Inr (Obj (obj_set kvs k v))"
| "set_prop w k v = Inr w"

subsection \<open>ToString\<close>

fun nat_digits :: "nat \<Rightarrow> jstring" where
  "nat_digits n =
     (if n < 10 then [48 + of_nat n] else nat_digits (n div 10) @ [48 + of_nat (n mod 10)])"

declare nat_digits.simps [simp del]

definition int_string :: "int \<Rightarrow> jstring" where
  "int_string i = (if i < 0 then 45 # nat_digits (nat (- i)) else nat_digits (nat i))"

text \<open>The own enumerable string-keyed properties of a value, as object spread
  \<^verbatim>\<open>{...v}\<close> copies them: indices of arrays and strings, entries of objects.\<close>

definition own_entries :: "jv \<Rightarrow> (jstring \<times> jv) list" where
  "own_entries v = (case v of
       Obj kvs \<Rightarrow> kvs
     | Arr xs \<Rightarrow> map (\<lambda>(i, x). (nat_digits i, x)) (zip [0..<length xs] xs)
     | Str s \<Rightarrow> map (\<lambda>(i, c). (nat_digits i, Str [c])) (zip [0..<length s] s)
     | _ \<Rightarrow> [])"

text \<open>ToString: arrays join their elements with commas, null and undefined
  elements as the empty string.\<close>

fun to_string :: "jv \<Rightarrow> jstring"
  and arr_join :: "jv list \<Rightarrow> jstring" where
  "to_string Undef = jstr ''undefined''"
| "to_string Null = jstr ''null''"
| "to_string (Bool b) = (if b then jstr ''true'' else jstr ''false'')"
| "to_string (Num i) = int_string i"
| "to_string (Str s) = s"
| "to_string (Arr xs) = arr_join xs"
| "to_string (Obj kvs) = jstr ''[object Object]''"
| "arr_join [] = []"
| "arr_join (x # xs) =
     (case x of Undef \<Rightarrow> [] | Null \<Rightarrow> [] | _ \<Rightarrow> to_string x)
     @ (if xs = [] then [] else 44 # arr_join xs)"

subsection \<open>Time values\<close>

text \<open>
  \<^verbatim>\<open>Date.parse\<close> is implementation-defined beyond the ISO format; the model takes
  the runtime's parser as a parameter, a function to the time value (milliseconds
  since the epoch) or \<open>None\<close> for NaN. \<^verbatim>\<open>new Date(x)\<close> converts \<open>x\<close> to a primitive,
  parses strings, converts the rest to a number, and clips the result to the range
  of \<open>\<plusminus>8.64 \<times> 10\<^sup>1\<^sup>5\<close> ms.
\<close>

type_synonym date_parser = "jstring \<Rightarrow> int option"

definition time_clip :: "int \<Rightarrow> int option" where
  "time_clip t = (if \<bar>t\<bar> \<le> 8640000000000000 then Some t else None)"

fun date_value :: "date_parser \<Rightarrow> jv \<Rightarrow> int option" where
  "date_value dp Undef = None"
| "date_value dp Null = Some 0"
| "date_value dp (Bool b) = Some (if b then 1 else 0)"
| "date_value dp (Num n) = time_clip n"
| "date_value dp (Str s) = Option.bind (dp s) time_clip"
| "date_value dp (Arr xs) = Option.bind (dp (arr_join xs)) time_clip"
| "date_value dp (Obj kvs) = Option.bind (dp (jstr ''[object Object]'')) time_clip"

subsection \<open>Facts about the value layer\<close>

declare obj_lookup_def [js_simps] time_clip_def [js_simps]

lemma js_or_truthy [simp]: "truthy a \<Longrightarrow> js_or a b = a"
  and js_or_falsy [simp]: "\<not> truthy a \<Longrightarrow> js_or a b = b"
  by (simp_all add: js_or_def)

lemma get_prop_Inr_iff: "(\<exists>w. get_prop v k = Inr w) \<longleftrightarrow> v \<noteq> Undef \<and> v \<noteq> Null"
  by (cases v) auto

lemma obj_lookup_obj_set [simp, js_simps]:
  "obj_lookup (obj_set kvs k v) k' = (if k' = k then v else obj_lookup kvs k')"
  by (induction kvs k v rule: obj_set.induct) (auto simp: obj_lookup_def)

lemma obj_set_obj_set [simp, js_simps]: "obj_set (obj_set kvs k v1) k v2 = obj_set kvs k v2"
  by (induction kvs k v1 rule: obj_set.induct) auto

lemma obj_set_lookup_same:
  "obj_lookup kvs k \<noteq> Undef \<Longrightarrow> obj_set kvs k (obj_lookup kvs k) = kvs"
  by (induction kvs k "obj_lookup kvs k" rule: obj_set.induct) (auto simp: obj_lookup_def)

lemma time_clip_bound: "time_clip t = Some ms \<Longrightarrow> \<bar>ms\<bar> \<le> 8640000000000000"
  by (simp add: time_clip_def split: if_splits)

lemma date_value_bound: "date_value dp v = Some ms \<Longrightarrow> \<bar>ms\<bar> \<le> 8640000000000000"
  by (cases v) (auto simp: time_clip_bound split: if_splits Option.bind_splits)

lemma map_fst_obj_set:
  "map fst (obj_set kvs k v) = (if k \<in> set (map fst kvs) then map fst kvs else map fst kvs @ [k])"
  by (induction kvs k v rule: obj_set.induct) auto

lemma distinct_obj_set:
  "distinct (map fst kvs) \<Longrightarrow> distinct (map fst (obj_set kvs k v))"
  by (simp add: map_fst_obj_set)

end
