(* ===== verification/Transport.thy ===== *)
theory Transport
  imports JsValue
begin

text \<open>
  The transport wrapper \<^verbatim>\<open>apiFetch(path, options)\<close> of app.js (lines 10--25).
  It is asynchronous: the request it issues (\<^verbatim>\<open>fetch(API_URL + path, options)\<close>) and
  what it does once the fetch settles are two halves, \<open>api_request\<close> and
  \<open>api_fetch_finish\<close>, so that a handler can be interleaved with others between
  them. The settled fetch is an input, \<open>fetch_outcome\<close>: a rejection (network
  failure) or a response with its status, its body as text and the outcome of
  parsing that body as JSON (\<^verbatim>\<open>res.json()\<close>). The user-visible effects, the
  \<^verbatim>\<open>console.error\<close> lines and the blocking \<^verbatim>\<open>alert\<close>s, are kept in order as a list.
\<close>

definition api_url :: jstring where
  "api_url = jstr ''https://693840b44618a71d77cf8cee.mockapi.io/api/v1/tasks''"

datatype http_method = GET | POST | PUT | DELETE

record fetch_options =
  opt_method :: http_method
  opt_headers :: "(jstring \<times> jstring) list"
  opt_body :: "jv option"   \<comment> \<open>the value passed to \<^verbatim>\<open>JSON.stringify\<close>\<close>

record request =
  req_url :: jstring
  req_options :: fetch_options

text \<open>\<^verbatim>\<open>{}\<close>: fetch's defaults, a GET with no headers and no body.\<close>

definition default_options :: fetch_options where
  "default_options = \<lparr>opt_method = GET, opt_headers = [], opt_body = None\<rparr>"

text \<open>\<^verbatim>\<open>{method, headers: {'Content-Type':'application/json'}, body: JSON.stringify(v)}\<close>\<close>

definition json_options :: "http_method \<Rightarrow> jv \<Rightarrow> fetch_options" where
  "json_options m v =
     \<lparr>opt_method = m, opt_headers = [(jstr ''Content-Type'', jstr ''application/json'')],
      opt_body = Some v\<rparr>"

definition api_request :: "jstring \<Rightarrow> fetch_options \<Rightarrow> request" where
  "api_request path opts = \<lparr>req_url = api_url @ path, req_options = opts\<rparr>"

datatype fetch_outcome =
    Rejected jstring                       \<comment> \<open>\<^verbatim>\<open>fetch\<close> rejects with this message\<close>
  | Responded int jstring "jstring + jv"  \<comment> \<open>status, body text, \<^verbatim>\<open>res.json()\<close>\<close>

datatype effect =
    ConsoleError jstring js_error   \<comment> \<open>\<^verbatim>\<open>console.error(label, err)\<close>\<close>
  | Alert jstring                   \<comment> \<open>\<^verbatim>\<open>alert(message)\<close>\<close>

text \<open>\<^verbatim>\<open>res.ok\<close>: the status lies in the range 200--299.\<close>

definition response_ok :: "int \<Rightarrow> bool" where
  "response_ok st \<longleftrightarrow> 200 \<le> st \<and> st \<le> 299"

text \<open>The \<^verbatim>\<open>message\<close> of each error. A TypeError of a property read never
  reaches \<^verbatim>\<open>apiFetch\<close>'s handler; its message is the engine's.\<close>

fun error_message :: "js_error \<Rightarrow> jstring" where
  "error_message (HttpError st text) = jstr ''HTTP '' @ int_string st @ jstr '' - '' @ text"
| "error_message (FetchFailed m) = m"
| "error_message (JsonSyntaxError m) = m"
| "error_message (NullAccess k) =
     jstr ''Cannot read properties of null (reading '' @ [39] @ k @ [39, 41]"

text \<open>The \<^verbatim>\<open>try\<close> block of apiFetch once the fetch settled: a non-ok status throws
  the HTTP error (after reading the body as text), an ok one returns the parsed
  body, and a body that is no JSON rejects \<^verbatim>\<open>res.json()\<close>.\<close>

fun api_result :: "fetch_outcome \<Rightarrow> js_error + jv" where
  "api_result (Rejected m) = Inl (FetchFailed m)"
| "api_result (Responded st text body) =
     (if response_ok st
      then (case body of Inl m \<Rightarrow> Inl (JsonSyntaxError m) | Inr v \<Rightarrow> Inr v)
      else Inl (HttpError st text))"

text \<open>The \<^verbatim>\<open>catch\<close> block: log, alert, rethrow.\<close>

definition api_error_effects :: "js_error \<Rightarrow> effect list" where
  "api_error_effects e =
     [ConsoleError (jstr ''API error:'') e, Alert (jstr ''Error con la API: '' @ error_message e)]"

definition api_fetch_finish :: "fetch_outcome \<Rightarrow> (js_error + jv) \<times> effect list" where
  "api_fetch_finish out =
     (case api_result out of
        Inr v \<Rightarrow> (Inr v, [])
      | Inl e \<Rightarrow> (Inl e, api_error_effects e))"

fun is_alert :: "effect \<Rightarrow> bool" where
  "is_alert (Alert m) = True"
| "is_alert (ConsoleError l e) = False"

definition alert_count :: "effect list \<Rightarrow> nat" where
  "alert_count es = length (filter is_alert es)"

subsection \<open>Facts\<close>

lemma alert_count_append [simp]: "alert_count (xs @ ys) = alert_count xs + alert_count ys"
  by (simp add: alert_count_def)

lemma alert_count_simps [simp]:
  "alert_count [] = 0"
  "alert_count (Alert m # es) = Suc (alert_count es)"
  "alert_count (ConsoleError l e # es) = alert_count es"
  by (simp_all add: alert_count_def)

lemma api_fetch_finish_result [simp]: "fst (api_fetch_finish out) = api_result out"
  by (simp add: api_fetch_finish_def split: sum.split)

lemma api_result_Inr_iff:
  "api_result out = Inr v \<longleftrightarrow> (\<exists>st text. out = Responded st text (Inr v) \<and> response_ok st)"
  by (cases out) (auto split: sum.splits)

lemma api_fetch_finish_Inr:
  "api_result out = Inr v \<Longrightarrow> api_fetch_finish out = (Inr v, [])"
  by (simp add: api_fetch_finish_def)

lemma api_fetch_finish_Inl:
  "api_result out = Inl e \<Longrightarrow> api_fetch_finish out = (Inl e, api_error_effects e)"
  by (simp add: api_fetch_finish_def)

lemma alert_count_api_error_effects [simp]: "alert_count (api_error_effects e) = 1"
  by (simp add: api_error_effects_def)

lemma api_result_cases:
  obtains (ok) v where "api_result out = Inr v" | (failed) e where "api_result out = Inl e"
  by (cases "api_result out") auto

subsection \<open>The wrapper's contract\<close>

text \<open>C10: one call of \<^verbatim>\<open>apiFetch\<close> raises exactly one alert when it fails (a network
  failure, a status outside 200--299, or a body that is not JSON) and none when it
  returns the parsed body.\<close>

theorem api_fetch_alerts:
  "alert_count (snd (api_fetch_finish out)) =
     (if \<exists>st text v. out = Responded st text (Inr v) \<and> response_ok st then 0 else 1)"
proof (cases "api_result out")
  case (Inl e)
  then have "\<not> (\<exists>st text v. out = Responded st text (Inr v) \<and> response_ok st)"
    using api_result_Inr_iff by (metis sum.distinct(1))
  with Inl show ?thesis by (simp add: api_fetch_finish_Inl)
next
  case (Inr v)
  then have "\<exists>st text v. out = Responded st text (Inr v) \<and> response_ok st"
    using api_result_Inr_iff by blast
  with Inr show ?thesis by (simp add: api_fetch_finish_Inr)
qed

end
