(* ===== verification/View.thy ===== *)
theory View
  imports Transport
begin

text \<open>
  The page the client drives, and the view renderer \<^verbatim>\<open>createTaskNode\<close> (app.js
  lines 27--66). The DOM is the program's only store: the children of
  \<^verbatim>\<open>#tasksList\<close> are placeholder rows (loading, load error, empty list) or task rows.
  A task row is identified by the \<^verbatim>\<open><li>\<close> element itself, which the model names by a
  reference number drawn from a counter; it holds the task object its two click
  handlers close over (\<^verbatim>\<open>toggleTask\<close> mutates that object) and the visible state
  of the title and the toggle button. The page also holds the text input
  (\<^verbatim>\<open>#taskInput\<close>), the number of \<^verbatim>\<open>taskInput.focus()\<close> calls and the log of
  console errors and alerts.
\<close>

datatype placeholder =
    Loading     \<comment> \<open>\<^verbatim>\<open>Cargando...\<close>, line 73\<close>
  | LoadFailed  \<comment> \<open>\<^verbatim>\<open>No se pudieron cargar las tareas.\<close>, line 83\<close>
  | NoTasks     \<comment> \<open>\<^verbatim>\<open>No hay tareas a\<acute>un\<close>, line 136\<close>

record task_node =
  node_ref :: nat          \<comment> \<open>identity of the \<^verbatim>\<open><li>\<close> element\<close>
  data_id :: jstring       \<comment> \<open>\<^verbatim>\<open>li.dataset.id\<close>\<close>
  node_task :: jv          \<comment> \<open>the task object the handlers close over\<close>
  title_text :: jstring    \<comment> \<open>\<^verbatim>\<open>title.textContent\<close>\<close>
  title_done :: bool       \<comment> \<open>class \<^verbatim>\<open>completed\<close> on the title\<close>
  toggle_html :: jstring   \<comment> \<open>\<^verbatim>\<open>toggleBtn.innerHTML\<close>\<close>
  toggle_tip :: jstring    \<comment> \<open>\<^verbatim>\<open>toggleBtn.title\<close>\<close>

datatype list_item = Placeholder placeholder | TaskItem task_node

record page =
  input_value :: jstring
  focus_calls :: nat
  list_items :: "list_item list"
  io_log :: "effect list"
  next_ref :: nat

subsection \<open>The task row\<close>

text \<open>The glyphs \<open>\<checkmark>\<close> (U+2713) for a completed task and the heavy check mark
  (U+2714) for an open one, and the two tooltips (lines 47--48, 123--124).\<close>

definition toggle_glyph :: "bool \<Rightarrow> jstring" where
  "toggle_glyph done = (if done then [0x2713] else [0x2714])"

definition toggle_tooltip :: "bool \<Rightarrow> jstring" where
  "toggle_tooltip done = (if done then jstr ''Marcar como no hecho'' else jstr ''Marcar como hecho'')"

definition untitled :: jstring where
  "untitled = jstr ''(sin t'' @ [0xED] @ jstr ''tulo)''"

text \<open>\<^verbatim>\<open>createTaskNode(task)\<close>: reads \<^verbatim>\<open>task.id\<close> (throwing on a null task), then
  \<^verbatim>\<open>task.completed\<close> and \<^verbatim>\<open>task.title\<close>; the new element gets the reference \<open>r\<close>.\<close>

definition create_task_node :: "nat \<Rightarrow> jv \<Rightarrow> js_error + task_node" where
  "create_task_node r task =
     res_bind (get_prop task (jstr ''id'')) (\<lambda>tid.
     res_bind (get_prop task (jstr ''completed'')) (\<lambda>c.
     res_bind (get_prop task (jstr ''title'')) (\<lambda>ti.
       Inr \<lparr>node_ref = r, data_id = to_string tid, node_task = task,
            title_text = to_string (js_or ti (Str untitled)),
            title_done = truthy c,
            toggle_html = toggle_glyph (truthy c),
            toggle_tip = toggle_tooltip (truthy c)\<rparr>)))"

subsection \<open>Rows by reference\<close>

fun task_nodes :: "list_item list \<Rightarrow> task_node list" where
  "task_nodes [] = []"
| "task_nodes (Placeholder ph # xs) = task_nodes xs"
| "task_nodes (TaskItem n # xs) = n # task_nodes xs"

fun is_row :: "nat \<Rightarrow> list_item \<Rightarrow> bool" where
  "is_row r (TaskItem n) = (node_ref n = r)"
| "is_row r (Placeholder ph) = False"

definition find_row :: "nat \<Rightarrow> list_item list \<Rightarrow> task_node option" where
  "find_row r xs = find (\<lambda>n. node_ref n = r) (task_nodes xs)"

text \<open>\<^verbatim>\<open>listItemNode.remove()\<close>: the element leaves the list, wherever it is; an
  element already detached is left alone.\<close>

definition remove_row :: "nat \<Rightarrow> list_item list \<Rightarrow> list_item list" where
  "remove_row r xs = filter (\<lambda>i. \<not> is_row r i) xs"

definition replace_row :: "nat \<Rightarrow> task_node \<Rightarrow> list_item list \<Rightarrow> list_item list" where
  "replace_row r n xs = map (\<lambda>i. if is_row r i then TaskItem n else i) xs"

definition refs_of :: "list_item list \<Rightarrow> nat list" where
  "refs_of xs = map node_ref (task_nodes xs)"

text \<open>A row as \<^verbatim>\<open>createTaskNode\<close> leaves it: its task is a value whose
  properties can be read, and its \<^verbatim>\<open>data-id\<close> is the task's \<^verbatim>\<open>id\<close> as a string.
  A well-formed page has distinct references on its rows, all below the counter,
  and only such rows.\<close>

definition row_ok :: "task_node \<Rightarrow> bool" where
  "row_ok n = (case get_prop (node_task n) (jstr ''id'') of Inl e \<Rightarrow> False | Inr tid \<Rightarrow> data_id n = to_string tid)"

definition wf_items :: "nat \<Rightarrow> list_item list \<Rightarrow> bool" where
  "wf_items nr xs \<longleftrightarrow> distinct (refs_of xs) \<and> (\<forall>r \<in> set (refs_of xs). r < nr)
     \<and> (\<forall>n \<in> set (task_nodes xs). row_ok n)"

definition wf_page :: "page \<Rightarrow> bool" where
  "wf_page p \<longleftrightarrow> wf_items (next_ref p) (list_items p)"

subsection \<open>Facts about rows\<close>

lemma row_ok_iff:
  "row_ok n \<longleftrightarrow> (\<exists>tid. get_prop (node_task n) (jstr ''id'') = Inr tid \<and> data_id n = to_string tid)"
  by (simp add: row_ok_def split: sum.split)

lemma task_nodes_append [simp]: "task_nodes (xs @ ys) = task_nodes xs @ task_nodes ys"
  by (induction xs rule: task_nodes.induct) auto

lemma task_nodes_filter: "task_nodes (filter (\<lambda>i. \<not> is_row r i) xs) = filter (\<lambda>n. node_ref n \<noteq> r) (task_nodes xs)"
  by (induction xs rule: task_nodes.induct) auto

lemma refs_of_simps [simp]:
  "refs_of [] = []"
  "refs_of (Placeholder ph # xs) = refs_of xs"
  "refs_of (TaskItem n # xs) = node_ref n # refs_of xs"
  "refs_of (xs @ ys) = refs_of xs @ refs_of ys"
  by (simp_all add: refs_of_def)

lemma task_nodes_remove_row:
  "task_nodes (remove_row r xs) = filter (\<lambda>n. node_ref n \<noteq> r) (task_nodes xs)"
  by (simp add: remove_row_def task_nodes_filter)

lemma refs_of_remove_row: "refs_of (remove_row r xs) = filter (\<lambda>x. x \<noteq> r) (refs_of xs)"
  by (simp add: refs_of_def remove_row_def task_nodes_filter filter_map comp_def)

lemma create_task_node_ref:
  "create_task_node r t = Inr n \<Longrightarrow> node_ref n = r \<and> node_task n = t \<and> t \<noteq> Null \<and> t \<noteq> Undef"
  by (cases t) (auto simp: create_task_node_def)

lemma create_task_node_row_ok: "create_task_node r t = Inr n \<Longrightarrow> row_ok n"
  by (cases t) (auto simp: create_task_node_def row_ok_iff)

lemma row_ok_task: "row_ok n \<Longrightarrow> node_task n \<noteq> Null \<and> node_task n \<noteq> Undef"
  by (auto simp: row_ok_iff)

lemma create_task_node_Inr_iff: "(\<exists>n. create_task_node r t = Inr n) \<longleftrightarrow> t \<noteq> Null \<and> t \<noteq> Undef"
  by (cases t) (auto simp: create_task_node_def)

lemma find_row_Some:
  "find_row r xs = Some n \<Longrightarrow> n \<in> set (task_nodes xs) \<and> node_ref n = r"
  by (auto simp: find_row_def find_Some_iff)

lemma find_row_None_iff: "find_row r xs = None \<longleftrightarrow> r \<notin> set (refs_of xs)"
  by (auto simp: find_row_def find_None_iff refs_of_def)

lemma wf_items_remove_row: "wf_items nr xs \<Longrightarrow> wf_items nr (remove_row r xs)"
  by (auto simp: wf_items_def refs_of_remove_row task_nodes_remove_row)

lemma wf_find_row_ok: "wf_items nr xs \<Longrightarrow> find_row r xs = Some n \<Longrightarrow> row_ok n"
  by (auto simp: wf_items_def dest: find_row_Some)

lemma distinct_refs_filter_remove1:
  "distinct (map node_ref ns) \<Longrightarrow> n \<in> set ns \<Longrightarrow>
   filter (\<lambda>m. node_ref m \<noteq> node_ref n) ns = remove1 n ns"
proof (induction ns)
  case Nil
  then show ?case by simp
next
  case (Cons m ns)
  show ?case
  proof (cases "m = n")
    case True
    with Cons.prems have "\<forall>x \<in> set ns. node_ref x \<noteq> node_ref n"
      by (auto simp: image_iff)
    then have "filter (\<lambda>x. node_ref x \<noteq> node_ref n) ns = ns" by (simp add: filter_id_conv)
    with True show ?thesis by simp
  next
    case False
    with Cons.prems have "n \<in> set ns" and "node_ref m \<noteq> node_ref n" by auto
    with Cons.IH Cons.prems False show ?thesis by simp
  qed
qed

lemma same_ref_length:
  assumes d: "distinct (map node_ref ns)" and a: "\<forall>m \<in> set ns. node_ref m = r"
  shows "length ns \<le> 1"
proof (cases ns)
  case (Cons m ms)
  have "ms = []"
  proof (rule ccontr)
    assume "ms \<noteq> []"
    then obtain m' ms' where ms: "ms = m' # ms'" by (cases ms) simp_all
    with Cons have mem: "m \<in> set ns" "m' \<in> set ns" by simp_all
    from d Cons ms have "node_ref m \<noteq> node_ref m'" by simp
    with a mem show False by metis
  qed
  with Cons show ?thesis by simp
qed simp

lemma task_nodes_remove_row_found:
  assumes "wf_items nr xs" and "find_row r xs = Some n"
  shows "task_nodes (remove_row r xs) = remove1 n (task_nodes xs)"
proof -
  from assms(2) have "n \<in> set (task_nodes xs)" "node_ref n = r" by (auto dest: find_row_Some)
  moreover from assms(1) have "distinct (map node_ref (task_nodes xs))"
    by (simp add: wf_items_def refs_of_def)
  ultimately show ?thesis
    by (metis distinct_refs_filter_remove1 task_nodes_remove_row)
qed

lemma all_rows_items:
  "\<forall>i \<in> set xs. is_row r i \<Longrightarrow> xs = map TaskItem (task_nodes xs) \<and> (\<forall>m \<in> set (task_nodes xs). node_ref m = r)"
  by (induction xs rule: task_nodes.induct) simp_all

lemma remove_row_Nil_iff:
  assumes "wf_items nr xs" and "find_row r xs = Some n"
  shows "remove_row r xs = [] \<longleftrightarrow> xs = [TaskItem n]"
proof
  assume "remove_row r xs = []"
  then have "\<forall>i \<in> set xs. is_row r i" by (simp add: remove_row_def filter_empty_conv)
  then have rows: "xs = map TaskItem (task_nodes xs)"
    and refs: "\<forall>m \<in> set (task_nodes xs). node_ref m = r"
    by (simp_all add: all_rows_items)
  from assms(1) have "distinct (map node_ref (task_nodes xs))" by (simp add: wf_items_def refs_of_def)
  then have "length (task_nodes xs) \<le> 1" using refs by (rule same_ref_length)
  moreover from assms(2) have "n \<in> set (task_nodes xs)" by (auto dest: find_row_Some)
  ultimately have "task_nodes xs = [n]"
    by (cases "task_nodes xs") (auto simp: length_Suc_conv)
  with rows show "xs = [TaskItem n]" by simp
next
  assume "xs = [TaskItem n]"
  moreover from assms(2) have "node_ref n = r" by (auto dest: find_row_Some)
  ultimately show "remove_row r xs = []" by (simp add: remove_row_def)
qed

lemma wf_items_placeholder [simp]: "wf_items nr [Placeholder ph]"
  by (simp add: wf_items_def refs_of_def)

lemma wf_items_Nil [simp]: "wf_items nr []"
  by (simp add: wf_items_def refs_of_def)

lemma wf_items_snoc:
  "wf_items nr xs \<Longrightarrow> row_ok n \<Longrightarrow> node_ref n = nr \<Longrightarrow> wf_items (Suc nr) (xs @ [TaskItem n])"
  by (auto simp: wf_items_def refs_of_def)

lemma wf_items_Cons:
  "wf_items nr xs \<Longrightarrow> row_ok n \<Longrightarrow> node_ref n = nr \<Longrightarrow> wf_items (Suc nr) (TaskItem n # xs)"
  by (auto simp: wf_items_def refs_of_def)

lemma task_nodes_replace_row:
  "task_nodes (replace_row r n' xs) = map (\<lambda>m. if node_ref m = r then n' else m) (task_nodes xs)"
  by (induction xs rule: task_nodes.induct) (simp_all add: replace_row_def)

lemma refs_of_replace_row: "node_ref n' = r \<Longrightarrow> refs_of (replace_row r n' xs) = refs_of xs"
  by (induction xs rule: task_nodes.induct) (simp_all add: replace_row_def)

lemma replace_row_replace_row [simp]:
  "node_ref n1 = r \<Longrightarrow> replace_row r n2 (replace_row r n1 xs) = replace_row r n2 xs"
  by (simp add: replace_row_def comp_def)

lemma replace_row_same:
  "\<forall>m \<in> set (task_nodes xs). node_ref m = r \<longrightarrow> m = n \<Longrightarrow> replace_row r n xs = xs"
  by (induction xs rule: task_nodes.induct) (auto simp: replace_row_def)

lemma find_row_replace_row:
  "find_row r xs = Some n \<Longrightarrow> node_ref n' = r \<Longrightarrow> find_row r (replace_row r n' xs) = Some n'"
proof (induction xs rule: task_nodes.induct)
  case (3 m xs)
  then show ?case by (cases "node_ref m = r") (simp_all add: find_row_def replace_row_def)
qed (simp_all add: find_row_def replace_row_def)

lemma wf_items_replace_row:
  assumes "wf_items nr xs" and "node_ref n' = r" and "row_ok n'"
  shows "wf_items nr (replace_row r n' xs)"
proof -
  have "refs_of (replace_row r n' xs) = refs_of xs"
    using assms(2) by (rule refs_of_replace_row)
  moreover have "\<forall>m \<in> set (task_nodes (replace_row r n' xs)). row_ok m"
    using assms(1,3) by (auto simp: task_nodes_replace_row wf_items_def)
  ultimately show ?thesis using assms(1) by (simp add: wf_items_def)
qed

lemma wf_items_mono: "wf_items nr xs \<Longrightarrow> nr \<le> nr' \<Longrightarrow> wf_items nr' xs"
  by (auto simp: wf_items_def)

end
