(* ===== verification/TaskSort.thy ===== *)
theory TaskSort
  imports JsValue "HOL-Library.Multiset"
begin

text \<open>
  The ordering of a loaded list (app.js line 80):
  \<^verbatim>\<open>tasks.sort((a,b) => new Date(b.createdAt || 0) - new Date(a.createdAt || 0))\<close>.
  The comparator reads \<^verbatim>\<open>createdAt\<close> of both tasks (a TypeError on a null
  element), replaces a falsy value by the epoch and subtracts the time values; a NaN
  difference (an unparsable date) counts as \<open>0\<close>, as the specification's SortCompare
  prescribes. \<^verbatim>\<open>Array.prototype.sort\<close> itself is the runtime's: the specification
  requires it to be stable and leaves the order implementation-defined when the
  comparator is inconsistent. \<open>js_sort\<close> is a conforming implementation, a stable
  insertion sort that calls the comparator with the element being inserted first and
  stops at the first exception. For a consistent comparator every conforming
  implementation returns the same list, which \<open>js_sort_eq_sort_key\<close> identifies as
  the library's stable \<open>sort_key\<close>.
\<close>

definition created_time :: "date_parser \<Rightarrow> jv \<Rightarrow> js_error + int option" where
  "created_time dp t =
     res_bind (get_prop t (jstr ''createdAt'')) (\<lambda>v. Inr (date_value dp (js_or v (Num 0))))"

text \<open>\<^verbatim>\<open>(a, b) => new Date(b.createdAt || 0) - new Date(a.createdAt || 0)\<close>, the
  operand for \<open>b\<close> evaluated first; NaN is \<open>None\<close> and compares as \<open>0\<close>.\<close>

definition compare_created :: "date_parser \<Rightarrow> jv \<Rightarrow> jv \<Rightarrow> js_error + int" where
  "compare_created dp a b =
     res_bind (created_time dp b) (\<lambda>tb. res_bind (created_time dp a) (\<lambda>ta.
       Inr (case (tb, ta) of (Some x, Some y) \<Rightarrow> x - y | _ \<Rightarrow> 0)))"

fun sort_insert :: "('a \<Rightarrow> 'a \<Rightarrow> 'e + int) \<Rightarrow> 'a \<Rightarrow> 'a list \<Rightarrow> 'e + 'a list" where
  "sort_insert c x [] = Inr [x]"
| "sort_insert c x (y # ys) =
     res_bind (c x y) (\<lambda>r. if r < 0 then Inr (x # y # ys)
                           else res_bind (sort_insert c x ys) (\<lambda>zs. Inr (y # zs)))"

fun js_sort_acc :: "('a \<Rightarrow> 'a \<Rightarrow> 'e + int) \<Rightarrow> 'a list \<Rightarrow> 'a list \<Rightarrow> 'e + 'a list" where
  "js_sort_acc c acc [] = Inr acc"
| "js_sort_acc c acc (x # xs) = res_bind (sort_insert c x acc) (\<lambda>acc'. js_sort_acc c acc' xs)"

definition js_sort :: "('a \<Rightarrow> 'a \<Rightarrow> 'e + int) \<Rightarrow> 'a list \<Rightarrow> 'e + 'a list" where
  "js_sort c xs = js_sort_acc c [] xs"

subsection \<open>Consistent comparators\<close>

text \<open>A comparator that never throws on \<open>A\<close> and orders it by the key \<open>k\<close>.\<close>

definition cmp_by_key :: "('a \<Rightarrow> 'a \<Rightarrow> 'e + int) \<Rightarrow> ('a \<Rightarrow> 'k::linorder) \<Rightarrow> 'a set \<Rightarrow> bool" where
  "cmp_by_key c k A \<longleftrightarrow> (\<forall>x \<in> A. \<forall>y \<in> A. \<exists>r. c x y = Inr r \<and> (r < 0 \<longleftrightarrow> k x < k y))"

text \<open>The insertion step on keys: the new element goes after every element whose key
  is not greater, which keeps equal keys in arrival order.\<close>

fun ins_key :: "('a \<Rightarrow> 'k::linorder) \<Rightarrow> 'a \<Rightarrow> 'a list \<Rightarrow> 'a list" where
  "ins_key k x [] = [x]"
| "ins_key k x (y # ys) = (if k x < k y then x # y # ys else y # ins_key k x ys)"

lemma mset_ins_key [simp]: "mset (ins_key k x ys) = add_mset x (mset ys)"
  by (induction ys) auto

lemma set_ins_key [simp]: "set (ins_key k x ys) = insert x (set ys)"
  by (induction ys) auto

lemma sorted_ins_key: "sorted (map k ys) \<Longrightarrow> sorted (map k (ins_key k x ys))"
  by (induction ys) auto

lemma filter_ins_key:
  "sorted (map k ys) \<Longrightarrow>
   filter (\<lambda>z. k z = v) (ins_key k x ys) = filter (\<lambda>z. k z = v) ys @ filter (\<lambda>z. k z = v) [x]"
proof (induction ys)
  case Nil
  then show ?case by simp
next
  case (Cons y ys)
  show ?case
  proof (cases "k x < k y")
    case True
    with Cons.prems have "\<forall>z \<in> set (y # ys). k x < k z" by auto
    then have "k x = v \<Longrightarrow> filter (\<lambda>z. k z = v) (y # ys) = []" by (auto simp: filter_empty_conv)
    with True show ?thesis by auto
  next
    case False
    with Cons show ?thesis by simp
  qed
qed

lemma sort_insert_ins_key:
  "\<forall>y \<in> set ys. \<exists>r. c x y = Inr r \<and> (r < 0 \<longleftrightarrow> k x < k y) \<Longrightarrow>
   sort_insert c x ys = Inr (ins_key k x ys)"
  by (induction ys) auto

lemma js_sort_acc_fold:
  "cmp_by_key c k (set acc \<union> set xs) \<Longrightarrow> js_sort_acc c acc xs = Inr (fold (ins_key k) xs acc)"
proof (induction xs arbitrary: acc)
  case Nil
  then show ?case by simp
next
  case (Cons x xs)
  from Cons.prems have "sort_insert c x acc = Inr (ins_key k x acc)"
    by (intro sort_insert_ins_key) (auto simp: cmp_by_key_def)
  moreover from Cons.prems have "cmp_by_key c k (set (ins_key k x acc) \<union> set xs)"
    by (auto simp: cmp_by_key_def)
  ultimately show ?case using Cons.IH by simp
qed

lemma fold_ins_key_props:
  assumes "sorted (map k acc)"
  shows "mset (fold (ins_key k) xs acc) = mset acc + mset xs
    \<and> sorted (map k (fold (ins_key k) xs acc))
    \<and> filter (\<lambda>z. k z = v) (fold (ins_key k) xs acc) =
        filter (\<lambda>z. k z = v) acc @ filter (\<lambda>z. k z = v) xs"
  using assms
proof (induction xs arbitrary: acc)
  case Nil
  then show ?case by simp
next
  case (Cons x xs)
  from Cons.prems have s: "sorted (map k (ins_key k x acc))" by (rule sorted_ins_key)
  from Cons.prems have "filter (\<lambda>z. k z = v) (ins_key k x acc) =
      filter (\<lambda>z. k z = v) acc @ filter (\<lambda>z. k z = v) [x]"
    by (rule filter_ins_key)
  with Cons.IH [OF s] show ?case by simp
qed

theorem js_sort_eq_sort_key:
  assumes "cmp_by_key c k (set xs)"
  shows "js_sort c xs = Inr (sort_key k xs)"
proof -
  let ?ys = "fold (ins_key k) xs []"
  have props: "mset ?ys = mset xs \<and> sorted (map k ?ys)
      \<and> filter (\<lambda>z. k z = v) ?ys = filter (\<lambda>z. k z = v) xs" for v
    using fold_ins_key_props [of k "[]" xs v] by simp
  have "sort_key k xs = ?ys"
  proof (rule properties_for_sort_key)
    show "mset ?ys = mset xs" using props by blast
    show "sorted (map k ?ys)" using props by blast
    show "filter (\<lambda>x. k y = k x) ?ys = filter (\<lambda>x. k y = k x) xs" for y
      using props [of "k y"] by (simp add: eq_commute)
  qed
  moreover from assms have "js_sort c xs = Inr ?ys"
    by (simp add: js_sort_def js_sort_acc_fold)
  ultimately show ?thesis by simp
qed

lemma sorted_neg_key: "sorted (map (\<lambda>x. - f x :: int) ys) \<Longrightarrow> sorted_wrt (\<ge>) (map f ys)"
  by (induction ys) auto

subsection \<open>The comparator of the task list\<close>

text \<open>The time a task sorts by, when its \<^verbatim>\<open>createdAt\<close> yields one, and the
  condition under which the comparator is consistent: every task of the list is an
  object or primitive whose \<^verbatim>\<open>createdAt\<close> is falsy or a valid date.\<close>

definition task_ms :: "date_parser \<Rightarrow> jv \<Rightarrow> int" where
  "task_ms dp t = (case created_time dp t of Inr (Some ms) \<Rightarrow> ms | _ \<Rightarrow> 0)"

definition valid_times :: "date_parser \<Rightarrow> jv list \<Rightarrow> bool" where
  "valid_times dp xs \<longleftrightarrow> (\<forall>t \<in> set xs. case created_time dp t of Inr (Some ms) \<Rightarrow> True | _ \<Rightarrow> False)"

lemma valid_times_iff:
  "valid_times dp xs \<longleftrightarrow> (\<forall>t \<in> set xs. \<exists>ms. created_time dp t = Inr (Some ms))"
proof -
  have "(case r of Inr (Some ms) \<Rightarrow> True | _ \<Rightarrow> False) \<longleftrightarrow> (\<exists>ms. r = Inr (Some ms))"
    for r :: "js_error + int option"
    by (cases r) (auto split: option.split)
  then show ?thesis by (simp add: valid_times_def)
qed

lemma compare_created_valid:
  "created_time dp a = Inr (Some ta) \<Longrightarrow> created_time dp b = Inr (Some tb) \<Longrightarrow>
   compare_created dp a b = Inr (tb - ta)"
  by (simp add: compare_created_def)

lemma cmp_by_key_compare_created:
  assumes "valid_times dp xs"
  shows "cmp_by_key (compare_created dp) (\<lambda>t. - task_ms dp t) (set xs)"
  unfolding cmp_by_key_def
proof (intro ballI)
  fix x y
  assume "x \<in> set xs" "y \<in> set xs"
  with assms obtain tx ty where "created_time dp x = Inr (Some tx)" "created_time dp y = Inr (Some ty)"
    unfolding valid_times_iff by meson
  then show "\<exists>r. compare_created dp x y = Inr r \<and> (r < 0 \<longleftrightarrow> - task_ms dp x < - task_ms dp y)"
    by (simp add: compare_created_valid task_ms_def)
qed

subsection \<open>Any comparator\<close>

text \<open>Whatever the comparator answers, a sort that returns returns a permutation of
  its input.\<close>

lemma sort_insert_mset:
  "sort_insert c x ys = Inr zs \<Longrightarrow> mset zs = add_mset x (mset ys)"
  by (induction ys arbitrary: zs) (auto simp: res_bind_eq_Inr split: if_splits)

lemma js_sort_acc_mset:
  "js_sort_acc c acc xs = Inr zs \<Longrightarrow> mset zs = mset acc + mset xs"
  by (induction xs arbitrary: acc) (auto simp: res_bind_eq_Inr dest!: sort_insert_mset)

lemma js_sort_set: "js_sort c xs = Inr ys \<Longrightarrow> set ys = set xs"
proof -
  assume "js_sort c xs = Inr ys"
  then have "mset ys = mset xs" by (simp add: js_sort_def js_sort_acc_mset)
  then show ?thesis by (metis set_mset_mset)
qed

subsection \<open>Properties of the list order\<close>

definition sort_ex1 :: jv where
  "sort_ex1 = Obj [(jstr ''createdAt'', Num 5)]"

definition sort_ex2 :: jv where
  "sort_ex2 = Obj [(jstr ''createdAt'', Num 7)]"


definition no_dates :: date_parser where
  "no_dates s = None"

text \<open>C12: when every task's \<^verbatim>\<open>createdAt\<close> yields a time, the sort returns a
  permutation of the tasks, newest first, and tasks with equal times keep the order
  the server sent them in.\<close>

theorem load_sort_stable:
  assumes "valid_times dp xs"
  shows "\<exists>ys. js_sort (compare_created dp) xs = Inr ys \<and> mset ys = mset xs
    \<and> sorted_wrt (\<ge>) (map (task_ms dp) ys)
    \<and> (\<forall>m. filter (\<lambda>t. task_ms dp t = m) ys = filter (\<lambda>t. task_ms dp t = m) xs)"
proof -
  let ?ys = "sort_key (\<lambda>t. - task_ms dp t) xs"
  have "js_sort (compare_created dp) xs = Inr ?ys"
    by (rule js_sort_eq_sort_key [OF cmp_by_key_compare_created [OF assms]])
  moreover have "sorted_wrt (\<ge>) (map (task_ms dp) ?ys)"
    by (rule sorted_neg_key [OF sorted_sort_key])
  moreover have "filter (\<lambda>t. task_ms dp t = m) ?ys = filter (\<lambda>t. task_ms dp t = m) xs" for m
    using sort_key_stable [of "\<lambda>t. - task_ms dp t" "- m" xs] by simp
  ultimately show ?thesis by (intro exI [of _ ?ys]) simp
qed

theorem load_sort_stable_witness:
  "valid_times no_dates [sort_ex1, sort_ex2] \<and>
   (\<exists>ys. js_sort (compare_created no_dates) [sort_ex1, sort_ex2] = Inr ys
    \<and> mset ys = mset [sort_ex1, sort_ex2]
    \<and> sorted_wrt (\<ge>) (map (task_ms no_dates) ys)
    \<and> (\<forall>m. filter (\<lambda>t. task_ms no_dates t = m) ys = filter (\<lambda>t. task_ms no_dates t = m) [sort_ex1, sort_ex2]))"
proof -
  have h: "valid_times no_dates [sort_ex1, sort_ex2]"
    by (simp add: valid_times_def created_time_def sort_ex1_def sort_ex2_def js_simps)
  show ?thesis using load_sort_stable [OF h] h by blast
qed



text \<open>C20: a \<^verbatim>\<open>createdAt\<close> string the runtime cannot parse makes the comparator
  inconsistent: it compares as equal (NaN counts as 0) to a task of time 1 and to
  one of time 2, which it orders apart. The specification of \<^verbatim>\<open>Array.prototype.sort\<close>
  then leaves the order implementation-defined, so the spec's promise that the list
  is non-increasing in \<^verbatim>\<open>createdAt\<close> rests on every date being valid.\<close>

theorem compare_created_inconsistent:
  assumes "dp s = None" and "s \<noteq> []"
  shows "compare_created dp (Obj [(jstr ''createdAt'', Num 1)]) (Obj [(jstr ''createdAt'', Str s)]) = Inr 0
    \<and> compare_created dp (Obj [(jstr ''createdAt'', Str s)]) (Obj [(jstr ''createdAt'', Num 2)]) = Inr 0
    \<and> compare_created dp (Obj [(jstr ''createdAt'', Num 1)]) (Obj [(jstr ''createdAt'', Num 2)]) = Inr 1"
  using assms by (simp add: compare_created_def created_time_def js_simps)

theorem compare_created_inconsistent_witness:
  "no_dates (jstr ''yesterday'') = None \<and> jstr ''yesterday'' \<noteq> [] \<and>
   compare_created no_dates (Obj [(jstr ''createdAt'', Num 1)]) (Obj [(jstr ''createdAt'', Str (jstr ''yesterday''))]) = Inr 0
    \<and> compare_created no_dates (Obj [(jstr ''createdAt'', Str (jstr ''yesterday''))]) (Obj [(jstr ''createdAt'', Num 2)]) = Inr 0
    \<and> compare_created no_dates (Obj [(jstr ''createdAt'', Num 1)]) (Obj [(jstr ''createdAt'', Num 2)]) = Inr 1"
proof -
  have h1: "no_dates (jstr ''yesterday'') = None" by (simp add: no_dates_def)
  have h2: "jstr ''yesterday'' \<noteq> []" by simp
  show ?thesis using compare_created_inconsistent [of no_dates "jstr ''yesterday''", OF h1 h2] h1 h2 by blast
qed

text \<open>C23: a task whose \<^verbatim>\<open>createdAt\<close> is missing or falsy sorts at the epoch.\<close>

theorem created_time_falsy:
  "\<not> truthy (obj_lookup kvs (jstr ''createdAt'')) \<Longrightarrow> created_time dp (Obj kvs) = Inr (Some 0)"
  by (simp add: created_time_def js_simps)

theorem created_time_falsy_witness:
  "\<not> truthy (obj_lookup [(jstr ''id'', Num 3)] (jstr ''createdAt'')) \<and>
   created_time no_dates (Obj [(jstr ''id'', Num 3)]) = Inr (Some 0)"
proof -
  have h: "\<not> truthy (obj_lookup [(jstr ''id'', Num 3)] (jstr ''createdAt''))" by (simp add: js_simps)
  show ?thesis using created_time_falsy [OF h] h by blast
qed

subsection \<open>Bounds of the comparator\<close>




end
