(* ===== verification/JsString.thy ===== *)
theory JsString
  imports Prelude
begin

text \<open>
  The two string built-ins the client calls: \<^verbatim>\<open>String.prototype.trim\<close> (on the input
  field's value in \<^verbatim>\<open>addTask\<close>) and \<^verbatim>\<open>String.prototype.includes\<close> (on the
  configured URL at start-up). Both are modelled from the ECMAScript specification,
  over UTF-16 code units. Trimming removes the code points of WhiteSpace and
  LineTerminator from both ends; all of them lie in the Basic Multilingual Plane, so
  testing code units is testing code points.
\<close>

definition is_js_space :: "code_unit \<Rightarrow> bool" where
  "is_js_space c \<longleftrightarrow>
     c \<in> {0x09, 0x0A, 0x0B, 0x0C, 0x0D, 0x20, 0xA0, 0x1680,
          0x2028, 0x2029, 0x202F, 0x205F, 0x3000, 0xFEFF}
     \<or> (0x2000 \<le> c \<and> c \<le> 0x200A)"

definition js_trim :: "jstring \<Rightarrow> jstring" where
  "js_trim s = rev (dropWhile is_js_space (rev (dropWhile is_js_space s)))"

fun js_includes :: "jstring \<Rightarrow> jstring \<Rightarrow> bool" where
  "js_includes [] t = (t = [])"
| "js_includes (c # s) t = (take (length t) (c # s) = t \<or> js_includes s t)"

subsection \<open>Trimming\<close>

lemma all_dropWhile_iff:
  "(\<forall>x \<in> set (dropWhile P xs). P x) \<longleftrightarrow> (\<forall>x \<in> set xs. P x)"
  by (induction xs) (auto dest: set_dropWhileD)

lemma rev_dropWhile_split:
  "xs = rev (dropWhile P (rev xs)) @ rev (takeWhile P (rev xs))"
  by (metis rev_append rev_rev_ident takeWhile_dropWhile_id)

lemma js_trim_Nil_iff: "js_trim s = [] \<longleftrightarrow> (\<forall>c \<in> set s. is_js_space c)"
  by (auto simp: js_trim_def all_dropWhile_iff dest: set_dropWhileD)

lemma dropWhile_js_trim:
  "dropWhile is_js_space s = js_trim s @ rev (takeWhile is_js_space (rev (dropWhile is_js_space s)))"
  unfolding js_trim_def by (rule rev_dropWhile_split)

lemma js_trim_decomp:
  "s = takeWhile is_js_space s @ js_trim s @
       rev (takeWhile is_js_space (rev (dropWhile is_js_space s)))"
  by (metis dropWhile_js_trim takeWhile_dropWhile_id)

lemma js_trim_hd:
  "js_trim s \<noteq> [] \<Longrightarrow> \<not> is_js_space (hd (js_trim s))"
proof -
  assume ne: "js_trim s \<noteq> []"
  let ?d = "dropWhile is_js_space s"
  have "?d = [] \<Longrightarrow> js_trim s = []" unfolding js_trim_def by (metis dropWhile.simps(1) rev.simps(1))
  with ne have "?d \<noteq> []" by blast
  then have "\<not> is_js_space (hd ?d)" by (rule hd_dropWhile)
  moreover from ne have "hd ?d = hd (js_trim s)"
    by (metis dropWhile_js_trim hd_append2)
  ultimately show ?thesis by simp
qed

lemma js_trim_last:
  "js_trim s \<noteq> [] \<Longrightarrow> \<not> is_js_space (last (js_trim s))"
proof -
  assume ne: "js_trim s \<noteq> []"
  let ?r = "dropWhile is_js_space (rev (dropWhile is_js_space s))"
  from ne have "?r \<noteq> []" by (simp add: js_trim_def)
  then have "\<not> is_js_space (hd ?r)" by (rule hd_dropWhile)
  then show ?thesis using \<open>?r \<noteq> []\<close> by (simp add: js_trim_def last_rev)
qed

lemma js_trim_idem [simp]: "js_trim (js_trim s) = js_trim s"
proof (cases "js_trim s = []")
  case True
  have "js_trim [] = []" by (simp add: js_trim_def)
  with True show ?thesis by simp
next
  case False
  let ?t = "js_trim s"
  have h: "dropWhile is_js_space ?t = ?t"
    using False js_trim_hd by (simp add: dropWhile_eq_self_iff)
  have "dropWhile is_js_space (rev ?t) = rev ?t"
    using False js_trim_last by (simp add: dropWhile_eq_self_iff hd_rev)
  with h show ?thesis by (simp add: js_trim_def)
qed

subsection \<open>Substring search\<close>

lemma js_includes_iff: "js_includes s t \<longleftrightarrow> (\<exists>p q. s = p @ t @ q)"
proof (induction s)
  case Nil
  then show ?case by simp
next
  case (Cons c s)
  have "take (length t) (c # s) = t \<longleftrightarrow> (\<exists>q. c # s = t @ q)"
    by (metis append_eq_conv_conj)
  moreover have "(\<exists>p q. c # s = p @ t @ q) \<longleftrightarrow>
      (\<exists>q. c # s = t @ q) \<or> (\<exists>p q. s = p @ t @ q)"
    by (auto simp: Cons_eq_append_conv)
  ultimately show ?case using Cons.IH by simp
qed

end
