(* ===== verification/Handlers.thy ===== *)
theory Handlers
  imports View TaskSort JsString
begin

text \<open>
  The action handlers of app.js: \<^verbatim>\<open>loadTasks\<close> (lines 71--85), \<^verbatim>\<open>addTask\<close>
  (88--109), \<^verbatim>\<open>toggleTask\<close> (112--128) and \<^verbatim>\<open>deleteTask\<close> (131--140), the event
  wiring (143--146) and the start-up guard (149--153). Each handler is an
  \<^verbatim>\<open>async\<close> function that suspends once, at \<^verbatim>\<open>await apiFetch(...)\<close>; it is modelled
  as its synchronous prefix (\<open>*_start\<close>: the page before the call and the request
  issued, if any) and its continuation (\<open>*_finish\<close>: the page once the fetch settled),
  so that \<^theory_text>\<open>Interleaving\<close> can run other events in between. \<open>*_task\<close> is the
  handler run without interruption.
\<close>

definition add_log :: "effect list \<Rightarrow> page \<Rightarrow> page" where
  "add_log es p = p\<lparr>io_log := io_log p @ es\<rparr>"

definition log_error :: "jstring \<Rightarrow> js_error \<Rightarrow> page \<Rightarrow> page" where
  "log_error label e p = add_log [ConsoleError label e] p"

text \<open>Runs \<^verbatim>\<open>apiFetch\<close>'s continuation on the page: its log and alert land in the
  page's log, its result goes to the caller.\<close>

definition fetch_settle :: "fetch_outcome \<Rightarrow> page \<Rightarrow> (js_error + jv) \<times> page" where
  "fetch_settle out p = (case api_fetch_finish out of (r, es) \<Rightarrow> (r, add_log es p))"

subsection \<open>loadTasks\<close>

definition load_start :: "page \<Rightarrow> page \<times> request" where
  "load_start p = (p\<lparr>list_items := [Placeholder Loading]\<rparr>, api_request [] default_options)"

text \<open>\<^verbatim>\<open>tasks.forEach(t => tasksList.appendChild(createTaskNode(t)))\<close>\<close>

fun append_nodes :: "jv list \<Rightarrow> page \<Rightarrow> js_error + page" where
  "append_nodes [] p = Inr p"
| "append_nodes (t # ts) p =
     res_bind (create_task_node (next_ref p) t) (\<lambda>n.
       append_nodes ts (p\<lparr>list_items := list_items p @ [TaskItem n], next_ref := Suc (next_ref p)\<rparr>))"

text \<open>Lines 75--81: clear the list; stop on a non-array or empty result; otherwise
  sort and append.\<close>

definition render_tasks :: "date_parser \<Rightarrow> jv \<Rightarrow> page \<Rightarrow> js_error + page" where
  "render_tasks dp tasks p =
     (let p' = p\<lparr>list_items := []\<rparr> in
      case tasks of
        Arr xs \<Rightarrow> if xs = [] then Inr p'
                  else res_bind (js_sort (compare_created dp) xs) (\<lambda>ys. append_nodes ys p')
      | _ \<Rightarrow> Inr p')"

text \<open>The \<^verbatim>\<open>catch\<close> of loadTasks replaces the list by the error row; it logs nothing.\<close>

definition load_finish :: "date_parser \<Rightarrow> fetch_outcome \<Rightarrow> page \<Rightarrow> page" where
  "load_finish dp out p =
     (case fetch_settle out p of (r, p1) \<Rightarrow>
        (case res_bind r (\<lambda>tasks. render_tasks dp tasks p1) of
           Inl e \<Rightarrow> p1\<lparr>list_items := [Placeholder LoadFailed]\<rparr>
         | Inr p2 \<Rightarrow> p2))"

definition load_tasks :: "date_parser \<Rightarrow> fetch_outcome \<Rightarrow> page \<Rightarrow> page" where
  "load_tasks dp out p = load_finish dp out (fst (load_start p))"

subsection \<open>addTask\<close>

definition task_payload :: "jstring \<Rightarrow> jv" where
  "task_payload title = Obj [(jstr ''title'', Str title), (jstr ''completed'', Bool False)]"

definition add_start :: "page \<Rightarrow> page \<times> request option" where
  "add_start p =
     (let title = js_trim (input_value p) in
      if title = [] then (p\<lparr>focus_calls := Suc (focus_calls p)\<rparr>, None)
      else (p, Some (api_request [] (json_options POST (task_payload title)))))"

definition add_finish :: "fetch_outcome \<Rightarrow> page \<Rightarrow> page" where
  "add_finish out p =
     (case fetch_settle out p of (r, p1) \<Rightarrow>
        (case res_bind r (\<lambda>t. create_task_node (next_ref p1) t) of
           Inl e \<Rightarrow> log_error (jstr ''addTask error'') e p1
         | Inr n \<Rightarrow> p1\<lparr>list_items := TaskItem n # list_items p1, next_ref := Suc (next_ref p1),
                       input_value := [], focus_calls := Suc (focus_calls p1)\<rparr>))"

definition add_task :: "fetch_outcome \<Rightarrow> page \<Rightarrow> page" where
  "add_task out p = (case add_start p of (p', None) \<Rightarrow> p' | (p', Some req) \<Rightarrow> add_finish out p')"

subsection \<open>toggleTask\<close>

text \<open>The click handler of a row's toggle button (line 50) reads
  \<^verbatim>\<open>!task.completed\<close> outside the \<^verbatim>\<open>try\<close>, then sends the task with
  \<^verbatim>\<open>completed\<close> flipped to \<^verbatim>\<open>'/' + task.id\<close>.\<close>

definition toggle_request :: "jv \<Rightarrow> js_error + request" where
  "toggle_request task =
     res_bind (get_prop task (jstr ''completed'')) (\<lambda>c.
     res_bind (get_prop task (jstr ''id'')) (\<lambda>tid.
       Inr (api_request (47 # to_string tid)
              (json_options PUT (Obj (obj_set (own_entries task) (jstr ''completed'') (Bool (\<not> truthy c))))))))"

text \<open>A click needs the button on the page: a row that is not in the list cannot be
  clicked.\<close>

definition toggle_start :: "nat \<Rightarrow> page \<Rightarrow> request option" where
  "toggle_start r p =
     (case find_row r (list_items p) of
        None \<Rightarrow> None
      | Some n \<Rightarrow> (case toggle_request (node_task n) of Inl e \<Rightarrow> None | Inr req \<Rightarrow> Some req))"

text \<open>\<^verbatim>\<open>classList.toggle('completed', task.completed)\<close>: an undefined second argument
  counts as absent, which flips the class; any other value forces it.\<close>

definition class_toggle :: "bool \<Rightarrow> jv \<Rightarrow> bool" where
  "class_toggle cur force = (if force = Undef then \<not> cur else truthy force)"

text \<open>Lines 120--124 on one row: adopt the server's \<^verbatim>\<open>completed\<close>, then redraw
  the title's class and the button from the task object.\<close>

definition toggle_apply :: "jv \<Rightarrow> task_node \<Rightarrow> js_error + task_node" where
  "toggle_apply v n =
     res_bind (set_prop (node_task n) (jstr ''completed'') v) (\<lambda>t.
     res_bind (get_prop t (jstr ''completed'')) (\<lambda>c.
       Inr (n\<lparr>node_task := t, title_done := class_toggle (title_done n) c,
              toggle_html := toggle_glyph (truthy c), toggle_tip := toggle_tooltip (truthy c)\<rparr>)))"

text \<open>A row removed meanwhile is still updated, invisibly: only a thrown error shows.\<close>

definition toggle_finish :: "nat \<Rightarrow> fetch_outcome \<Rightarrow> page \<Rightarrow> page" where
  "toggle_finish r out p =
     (case fetch_settle out p of (res, p1) \<Rightarrow>
        (case res_bind res (\<lambda>upd. get_prop upd (jstr ''completed'')) of
           Inl e \<Rightarrow> log_error (jstr ''toggleTask error'') e p1
         | Inr v \<Rightarrow>
             (case find_row r (list_items p1) of
                None \<Rightarrow> p1
              | Some n \<Rightarrow> (case toggle_apply v n of
                    Inl e \<Rightarrow> log_error (jstr ''toggleTask error'') e p1
                  | Inr n' \<Rightarrow> p1\<lparr>list_items := replace_row r n' (list_items p1)\<rparr>))))"

definition toggle_task :: "nat \<Rightarrow> fetch_outcome \<Rightarrow> page \<Rightarrow> page" where
  "toggle_task r out p = (case toggle_start r p of None \<Rightarrow> p | Some req \<Rightarrow> toggle_finish r out p)"

subsection \<open>deleteTask\<close>

text \<open>The delete button's handler (line 57) passes \<^verbatim>\<open>task.id\<close>; \<^verbatim>\<open>confirm\<close> is the
  user's answer \<open>ok\<close>.\<close>

definition delete_start :: "nat \<Rightarrow> bool \<Rightarrow> page \<Rightarrow> request option" where
  "delete_start r ok p =
     (case find_row r (list_items p) of
        None \<Rightarrow> None
      | Some n \<Rightarrow> (case get_prop (node_task n) (jstr ''id'') of
           Inl e \<Rightarrow> None
         | Inr tid \<Rightarrow> if \<not> ok then None
                      else Some (api_request (47 # to_string tid) (default_options\<lparr>opt_method := DELETE\<rparr>))))"

definition delete_finish :: "nat \<Rightarrow> fetch_outcome \<Rightarrow> page \<Rightarrow> page" where
  "delete_finish r out p =
     (case fetch_settle out p of (res, p1) \<Rightarrow>
        (case res of
           Inl e \<Rightarrow> log_error (jstr ''deleteTask error'') e p1
         | Inr v \<Rightarrow> (let xs = remove_row r (list_items p1) in
                     p1\<lparr>list_items := (if xs = [] then [Placeholder NoTasks] else xs)\<rparr>)))"

definition delete_task :: "nat \<Rightarrow> bool \<Rightarrow> fetch_outcome \<Rightarrow> page \<Rightarrow> page" where
  "delete_task r ok out p = (case delete_start r ok p of None \<Rightarrow> p | Some req \<Rightarrow> delete_finish r out p)"

subsection \<open>Events and start-up\<close>

text \<open>\<^verbatim>\<open>keydown\<close> on the input: Enter adds the task, any other key does nothing.\<close>

definition key_down :: "jstring \<Rightarrow> page \<Rightarrow> page \<times> request option" where
  "key_down key p = (if key = jstr ''Enter'' then add_start p else (p, None))"

definition config_warning :: jstring where
  "config_warning = [0x26A0, 0xFE0F] @ jstr '' Pega la URL de tu recurso '' @ [34] @ jstr ''tasks''
     @ [34] @ jstr '' de MockAPI en app.js (const API_URL).''"

definition boot :: "jstring \<Rightarrow> page \<Rightarrow> page \<times> request option" where
  "boot url p =
     (if url = [] \<or> js_includes url (jstr ''REPLACE_WITH'') then (add_log [Alert config_warning] p, None)
      else (case load_start p of (p', req) \<Rightarrow> (p', Some req)))"

subsection \<open>Facts shared by the handler proofs\<close>

lemma api_url_configured: "api_url \<noteq> [] \<and> \<not> js_includes api_url (jstr ''REPLACE_WITH'')"
  by (simp add: api_url_def jstr_def)

lemma class_toggle_forced [simp]: "v \<noteq> Undef \<Longrightarrow> class_toggle cur v = truthy v"
  by (simp add: class_toggle_def)

lemma add_log_fields [simp]:
  "list_items (add_log es p) = list_items p"
  "input_value (add_log es p) = input_value p"
  "focus_calls (add_log es p) = focus_calls p"
  "next_ref (add_log es p) = next_ref p"
  "io_log (add_log es p) = io_log p @ es"
  by (simp_all add: add_log_def)

lemma add_log_Nil [simp]: "add_log [] p = p"
  by (simp add: add_log_def)

lemma add_log_add_log [simp]: "add_log es (add_log fs p) = add_log (fs @ es) p"
  by (simp add: add_log_def)

lemma add_log_items [simp]: "(add_log es p)\<lparr>list_items := xs\<rparr> = add_log es (p\<lparr>list_items := xs\<rparr>)"
  by (simp add: add_log_def)

lemma fetch_settle_ok [page_simps]: "api_result out = Inr v \<Longrightarrow> fetch_settle out p = (Inr v, p)"
  by (simp add: fetch_settle_def api_fetch_finish_Inr)

lemma fetch_settle_failed [page_simps]:
  "api_result out = Inl e \<Longrightarrow> fetch_settle out p = (Inl e, add_log (api_error_effects e) p)"
  by (simp add: fetch_settle_def api_fetch_finish_Inl)

declare log_error_def [page_simps]

lemma append_nodes_ok:
  assumes "\<forall>t \<in> set ys. t \<noteq> Null \<and> t \<noteq> Undef"
  shows "\<exists>ns. append_nodes ys p =
      Inr (p\<lparr>list_items := list_items p @ map TaskItem ns, next_ref := next_ref p + length ys\<rparr>)
    \<and> map node_task ns = ys \<and> map node_ref ns = [next_ref p..<next_ref p + length ys]
    \<and> (\<forall>n \<in> set ns. row_ok n)"
  using assms
proof (induction ys arbitrary: p)
  case Nil
  show ?case by (intro exI [of _ "[]"]) simp
next
  case (Cons t ts)
  from Cons.prems have "t \<noteq> Null \<and> t \<noteq> Undef" by simp
  then obtain n where n: "create_task_node (next_ref p) t = Inr n"
    using create_task_node_Inr_iff [of "next_ref p" t] by blast
  have n_props: "node_ref n = next_ref p" "node_task n = t" "row_ok n"
    using create_task_node_ref [OF n] create_task_node_row_ok [OF n] by simp_all
  define q where "q = p\<lparr>list_items := list_items p @ [TaskItem n], next_ref := Suc (next_ref p)\<rparr>"
  have step: "append_nodes (t # ts) p = append_nodes ts q"
    using n by (simp add: q_def)
  from Cons.prems have "\<forall>t \<in> set ts. t \<noteq> Null \<and> t \<noteq> Undef" by simp
  from Cons.IH [OF this, of q] obtain ns where
    ns1: "append_nodes ts q =
      Inr (q\<lparr>list_items := list_items q @ map TaskItem ns, next_ref := next_ref q + length ts\<rparr>)"
    and ns2: "map node_task ns = ts" "map node_ref ns = [next_ref q..<next_ref q + length ts]"
    "\<forall>m \<in> set ns. row_ok m"
    by blast
  have "q\<lparr>list_items := list_items q @ map TaskItem ns, next_ref := next_ref q + length ts\<rparr> =
      p\<lparr>list_items := list_items p @ map TaskItem (n # ns), next_ref := next_ref p + length (t # ts)\<rparr>"
    by (simp add: q_def)
  moreover have "map node_ref (n # ns) = [next_ref p..<next_ref p + length (t # ts)]"
    using n_props ns2 by (simp add: q_def upt_conv_Cons del: upt_Suc)
  ultimately show ?case
    using step ns1 ns2 n_props by (intro exI [of _ "n # ns"]) simp
qed

lemma append_nodes_bad:
  "Null \<in> set ys \<or> Undef \<in> set ys \<Longrightarrow> \<exists>e. append_nodes ys p = Inl e"
proof (induction ys arbitrary: p)
  case Nil
  then show ?case by simp
next
  case (Cons t ts)
  show ?case
  proof (cases "create_task_node (next_ref p) t")
    case (Inl e)
    then show ?thesis by simp
  next
    case (Inr n)
    with Cons.prems have "Null \<in> set ts \<or> Undef \<in> set ts"
      using create_task_node_ref [OF Inr] by auto
    with Cons.IH Inr show ?thesis by simp
  qed
qed

lemma valid_times_good: "valid_times dp xs \<Longrightarrow> \<forall>t \<in> set xs. t \<noteq> Null \<and> t \<noteq> Undef"
  by (auto simp: valid_times_iff created_time_def)

lemma render_tasks_valid:
  assumes "valid_times dp xs"
  shows "\<exists>ns. render_tasks dp (Arr xs) p =
      Inr (p\<lparr>list_items := map TaskItem ns, next_ref := next_ref p + length xs\<rparr>)
    \<and> map node_task ns = sort_key (\<lambda>t. - task_ms dp t) xs
    \<and> map node_ref ns = [next_ref p..<next_ref p + length xs] \<and> (\<forall>n \<in> set ns. row_ok n)"
proof (cases "xs = []")
  case True
  then show ?thesis by (simp add: render_tasks_def)
next
  case False
  let ?ys = "sort_key (\<lambda>t. - task_ms dp t) xs"
  have sort: "js_sort (compare_created dp) xs = Inr ?ys"
    using assms by (intro js_sort_eq_sort_key cmp_by_key_compare_created)
  have "\<forall>t \<in> set ?ys. t \<noteq> Null \<and> t \<noteq> Undef"
    using valid_times_good [OF assms] by simp
  from append_nodes_ok [OF this, of "p\<lparr>list_items := []\<rparr>"] obtain ns where
    "append_nodes ?ys (p\<lparr>list_items := []\<rparr>) =
       Inr (p\<lparr>list_items := map TaskItem ns, next_ref := next_ref p + length xs\<rparr>)"
    "map node_task ns = ?ys" "map node_ref ns = [next_ref p..<next_ref p + length xs]"
    "\<forall>n \<in> set ns. row_ok n"
    by auto
  with False sort show ?thesis by (auto simp: render_tasks_def)
qed

lemma render_tasks_bad:
  assumes "Null \<in> set xs \<or> Undef \<in> set xs"
  shows "\<exists>e. render_tasks dp (Arr xs) p = Inl e"
proof (cases "js_sort (compare_created dp) xs")
  case (Inl e)
  with assms show ?thesis by (auto simp: render_tasks_def Let_def)
next
  case (Inr ys)
  then have "set ys = set xs" by (rule js_sort_set)
  with assms append_nodes_bad [of ys] obtain e where "append_nodes ys (p\<lparr>list_items := []\<rparr>) = Inl e"
    by auto
  with assms Inr show ?thesis by (auto simp: render_tasks_def Let_def)
qed

lemma load_finish_ok:
  "api_result out = Inr v \<Longrightarrow>
   load_finish dp out p =
     (case render_tasks dp v p of Inl e \<Rightarrow> p\<lparr>list_items := [Placeholder LoadFailed]\<rparr> | Inr p2 \<Rightarrow> p2)"
  by (simp add: load_finish_def page_simps)

lemma load_finish_failed:
  "api_result out = Inl e \<Longrightarrow>
   load_finish dp out p = add_log (api_error_effects e) (p\<lparr>list_items := [Placeholder LoadFailed]\<rparr>)"
  by (simp add: load_finish_def page_simps)

lemma load_start_page: "fst (load_start p) = p\<lparr>list_items := [Placeholder Loading]\<rparr>"
  by (simp add: load_start_def)

lemma add_start_blank:
  "js_trim (input_value p) = [] \<Longrightarrow> add_start p = (p\<lparr>focus_calls := Suc (focus_calls p)\<rparr>, None)"
  by (simp add: add_start_def)

lemma add_start_title:
  "js_trim (input_value p) \<noteq> [] \<Longrightarrow>
   add_start p = (p, Some (api_request [] (json_options POST (task_payload (js_trim (input_value p))))))"
  by (simp add: add_start_def Let_def)

lemma add_finish_ok:
  assumes "api_result out = Inr t" and "t \<noteq> Null \<and> t \<noteq> Undef"
  shows "\<exists>n. add_finish out p =
      p\<lparr>list_items := TaskItem n # list_items p, next_ref := Suc (next_ref p),
        input_value := [], focus_calls := Suc (focus_calls p)\<rparr>
    \<and> node_task n = t \<and> node_ref n = next_ref p \<and> row_ok n"
proof -
  from assms(2) obtain n where n: "create_task_node (next_ref p) t = Inr n"
    using create_task_node_Inr_iff [of "next_ref p" t] by blast
  have "node_task n = t \<and> node_ref n = next_ref p \<and> row_ok n"
    using create_task_node_ref [OF n] create_task_node_row_ok [OF n] by simp
  moreover have "add_finish out p =
      p\<lparr>list_items := TaskItem n # list_items p, next_ref := Suc (next_ref p),
        input_value := [], focus_calls := Suc (focus_calls p)\<rparr>"
    using assms(1) n by (simp add: add_finish_def page_simps)
  ultimately show ?thesis by blast
qed

lemma add_finish_failed:
  "api_result out = Inl e \<Longrightarrow>
   add_finish out p = add_log (api_error_effects e @ [ConsoleError (jstr ''addTask error'') e]) p"
  by (simp add: add_finish_def page_simps)

lemma toggle_request_obj:
  "toggle_request (Obj kvs) =
     Inr (api_request (47 # to_string (obj_lookup kvs (jstr ''id'')))
       (json_options PUT (Obj (obj_set kvs (jstr ''completed'')
          (Bool (\<not> truthy (obj_lookup kvs (jstr ''completed''))))))))"
  by (simp add: toggle_request_def own_entries_def)

lemma toggle_start_row:
  "wf_page p \<Longrightarrow> find_row r (list_items p) = Some n \<Longrightarrow> \<exists>req. toggle_start r p = Some req"
  by (cases "node_task n") (auto simp: toggle_start_def toggle_request_def wf_page_def
      dest!: wf_find_row_ok row_ok_task)

lemma toggle_apply_obj:
  "node_task n = Obj kvs \<Longrightarrow>
   toggle_apply v n = Inr (n\<lparr>node_task := Obj (obj_set kvs (jstr ''completed'') v),
      title_done := class_toggle (title_done n) v,
      toggle_html := toggle_glyph (truthy v), toggle_tip := toggle_tooltip (truthy v)\<rparr>)"
  by (simp add: toggle_apply_def)

lemma toggle_finish_ok:
  "api_result out = Inr upd \<Longrightarrow> get_prop upd (jstr ''completed'') = Inr v \<Longrightarrow>
   find_row r (list_items p) = Some n \<Longrightarrow> node_task n = Obj kvs \<Longrightarrow>
   toggle_finish r out p = p\<lparr>list_items := replace_row r
     (n\<lparr>node_task := Obj (obj_set kvs (jstr ''completed'') v),
        title_done := class_toggle (title_done n) v,
        toggle_html := toggle_glyph (truthy v), toggle_tip := toggle_tooltip (truthy v)\<rparr>) (list_items p)\<rparr>"
  by (simp add: toggle_finish_def page_simps toggle_apply_obj)

lemma toggle_finish_failed:
  "api_result out = Inl e \<Longrightarrow>
   toggle_finish r out p = add_log (api_error_effects e @ [ConsoleError (jstr ''toggleTask error'') e]) p"
  by (simp add: toggle_finish_def page_simps)

lemma delete_start_row:
  "row_ok n \<Longrightarrow> find_row r (list_items p) = Some n \<Longrightarrow>
   delete_start r True p = Some (api_request (47 # data_id n) (default_options\<lparr>opt_method := DELETE\<rparr>))"
  by (auto simp: delete_start_def row_ok_iff)

lemma delete_finish_ok:
  "api_result out = Inr v \<Longrightarrow>
   delete_finish r out p = p\<lparr>list_items :=
     (if remove_row r (list_items p) = [] then [Placeholder NoTasks] else remove_row r (list_items p))\<rparr>"
  by (simp add: delete_finish_def page_simps Let_def)

lemma delete_finish_failed:
  "api_result out = Inl e \<Longrightarrow>
   delete_finish r out p = add_log (api_error_effects e @ [ConsoleError (jstr ''deleteTask error'') e]) p"
  by (simp add: delete_finish_def page_simps)

subsection \<open>Well-formedness is kept\<close>

lemma wf_page_add_log [simp]: "wf_page (add_log es p) = wf_page p"
  by (simp add: wf_page_def)

lemma wf_page_log_error [simp]: "wf_page (log_error l e p) = wf_page p"
  by (simp add: log_error_def)

lemma wf_append_nodes:
  "append_nodes ys p = Inr p' \<Longrightarrow> wf_page p \<Longrightarrow> wf_page p'"
proof (induction ys arbitrary: p)
  case Nil
  then show ?case by simp
next
  case (Cons t ts)
  from Cons.prems(1) obtain n where n: "create_task_node (next_ref p) t = Inr n"
    and rest: "append_nodes ts (p\<lparr>list_items := list_items p @ [TaskItem n], next_ref := Suc (next_ref p)\<rparr>) = Inr p'"
    by (auto simp: res_bind_eq_Inr)
  have "row_ok n" "node_ref n = next_ref p"
    using create_task_node_row_ok [OF n] create_task_node_ref [OF n] by simp_all
  with Cons.prems(2) have "wf_page (p\<lparr>list_items := list_items p @ [TaskItem n], next_ref := Suc (next_ref p)\<rparr>)"
    by (simp add: wf_page_def wf_items_snoc)
  with rest show ?case by (rule Cons.IH)
qed

lemma wf_render_tasks: "render_tasks dp v p = Inr p' \<Longrightarrow> wf_page p'"
proof -
  assume r: "render_tasks dp v p = Inr p'"
  have wf0: "wf_page (p\<lparr>list_items := []\<rparr>)" by (simp add: wf_page_def)
  show ?thesis
  proof (cases v)
    case (Arr xs)
    show ?thesis
    proof (cases "xs = []")
      case True
      with r Arr wf0 show ?thesis by (simp add: render_tasks_def)
    next
      case False
      with r Arr obtain ys where "append_nodes ys (p\<lparr>list_items := []\<rparr>) = Inr p'"
        by (auto simp: render_tasks_def res_bind_eq_Inr)
      then show ?thesis using wf0 by (rule wf_append_nodes)
    qed
  qed (use r wf0 in \<open>simp_all add: render_tasks_def\<close>)
qed

lemma wf_load_start: "wf_page (fst (load_start p))"
  by (simp add: load_start_page wf_page_def)

lemma wf_load_finish: "wf_page (load_finish dp out p)"
proof (cases "api_result out")
  case (Inl e)
  then show ?thesis by (simp add: load_finish_failed wf_page_def)
next
  case (Inr v)
  then show ?thesis
    by (cases "render_tasks dp v p") (auto simp: load_finish_ok wf_page_def dest: wf_render_tasks)
qed

lemma wf_add_start: "wf_page p \<Longrightarrow> wf_page (fst (add_start p))"
  by (simp add: add_start_def Let_def wf_page_def)

lemma wf_add_finish: "wf_page p \<Longrightarrow> wf_page (add_finish out p)"
proof (cases "api_result out")
  case (Inl e)
  assume "wf_page p"
  with Inl show ?thesis by (simp add: add_finish_failed)
next
  case (Inr t)
  note ok = this
  assume wf: "wf_page p"
  show ?thesis
  proof (cases "create_task_node (next_ref p) t")
    case (Inl e)
    with ok wf show ?thesis by (simp add: add_finish_def page_simps)
  next
    case (Inr n)
    have "row_ok n" "node_ref n = next_ref p"
      using create_task_node_row_ok [OF Inr] create_task_node_ref [OF Inr] by simp_all
    with ok Inr wf show ?thesis
      by (simp add: add_finish_def page_simps wf_page_def wf_items_Cons)
  qed
qed

lemma toggle_apply_row_ok:
  assumes "toggle_apply v n = Inr n'" and "row_ok n"
  shows "row_ok n' \<and> node_ref n' = node_ref n"
proof -
  from assms(1) obtain t c where t: "set_prop (node_task n) (jstr ''completed'') v = Inr t"
    and n': "n' = n\<lparr>node_task := t, title_done := class_toggle (title_done n) c,
              toggle_html := toggle_glyph (truthy c), toggle_tip := toggle_tooltip (truthy c)\<rparr>"
    by (auto simp: toggle_apply_def res_bind_eq_Inr)
  have "get_prop t (jstr ''id'') = get_prop (node_task n) (jstr ''id'')"
    using t by (cases "node_task n") auto
  with assms(2) n' show ?thesis by (simp add: row_ok_iff)
qed

lemma toggle_apply_ref: "toggle_apply v n = Inr n' \<Longrightarrow> node_ref n' = node_ref n"
  by (auto simp: toggle_apply_def res_bind_eq_Inr)

text \<open>The three outcomes of a toggle's continuation: only the log grows, or the row is
  redrawn by \<open>toggle_apply\<close>.\<close>

lemma toggle_finish_cases:
  obtains (log) es where "toggle_finish r out p = add_log es p"
  | (row) v n n' where "find_row r (list_items p) = Some n" and "toggle_apply v n = Inr n'"
      and "toggle_finish r out p = p\<lparr>list_items := replace_row r n' (list_items p)\<rparr>"
proof (cases "api_result out")
  case (Inl e)
  then have "toggle_finish r out p = add_log (api_error_effects e @ [ConsoleError (jstr ''toggleTask error'') e]) p"
    by (simp add: toggle_finish_def page_simps)
  then show ?thesis by (rule log)
next
  case (Inr upd)
  note ok = this
  show ?thesis
  proof (cases "get_prop upd (jstr ''completed'')")
    case (Inl e)
    with ok have "toggle_finish r out p = add_log [ConsoleError (jstr ''toggleTask error'') e] p"
      by (simp add: toggle_finish_def page_simps)
    then show ?thesis by (rule log)
  next
    case (Inr v)
    note got = this
    show ?thesis
    proof (cases "find_row r (list_items p)")
      case None
      with ok got have "toggle_finish r out p = add_log [] p" by (simp add: toggle_finish_def page_simps)
      then show ?thesis by (rule log)
    next
      case (Some n)
      show ?thesis
      proof (cases "toggle_apply v n")
        case (Inl e)
        with ok got Some have "toggle_finish r out p = add_log [ConsoleError (jstr ''toggleTask error'') e] p"
          by (simp add: toggle_finish_def page_simps)
        then show ?thesis by (rule log)
      next
        case (Inr n')
        with ok got Some show ?thesis by (intro row) (simp_all add: toggle_finish_def page_simps)
      qed
    qed
  qed
qed

lemma wf_toggle_finish: "wf_page p \<Longrightarrow> wf_page (toggle_finish r out p)"
proof (cases rule: toggle_finish_cases [of r out p])
  case (row v n n')
  assume wf: "wf_page p"
  have "row_ok n" "node_ref n = r"
    using wf row(1) by (auto simp: wf_page_def wf_find_row_ok dest: find_row_Some)
  with toggle_apply_row_ok [OF row(2)] have "row_ok n'" "node_ref n' = r" by simp_all
  with wf row(3) show ?thesis by (simp add: wf_page_def wf_items_replace_row)
qed simp

lemma wf_delete_finish: "wf_page p \<Longrightarrow> wf_page (delete_finish r out p)"
  by (cases "api_result out")
    (simp_all add: delete_finish_failed delete_finish_ok wf_page_def wf_items_remove_row)

end
