(* ===== verification/HandlerProps.thy ===== *)
theory HandlerProps
  imports Handlers
begin

text \<open>
  The properties of the four handlers, each run without interruption (\<open>*_task\<close>),
  as the spec states them (its section 8), and the places where the code departs
  from the spec. Each property with hypotheses is followed by a witness that applies
  it to a small page.
\<close>

subsection \<open>Sample data\<close>

definition ex_dp :: date_parser where
  "ex_dp s = None"

definition ex_task1 :: jv where
  "ex_task1 = Obj [(jstr ''id'', Str (jstr ''1'')), (jstr ''title'', Str (jstr ''a'')),
     (jstr ''completed'', Bool False), (jstr ''createdAt'', Num 5)]"

definition ex_task2 :: jv where
  "ex_task2 = Obj [(jstr ''id'', Str (jstr ''2'')), (jstr ''title'', Str (jstr ''b'')),
     (jstr ''completed'', Bool True), (jstr ''createdAt'', Num 7)]"

definition ex_page :: page where
  "ex_page = \<lparr>input_value = jstr '' buy milk '', focus_calls = 0, list_items = [],
     io_log = [], next_ref = 0\<rparr>"

definition ex_row :: task_node where
  "ex_row = \<lparr>node_ref = 0, data_id = jstr ''1'', node_task = ex_task1, title_text = jstr ''a'',
     title_done = False, toggle_html = toggle_glyph False, toggle_tip = toggle_tooltip False\<rparr>"

definition ex_reply :: jv where
  "ex_reply = Obj [(jstr ''id'', Str (jstr ''1'')), (jstr ''completed'', Bool True)]"

definition ex_reply_undone :: jv where
  "ex_reply_undone = Obj [(jstr ''id'', Str (jstr ''1'')), (jstr ''completed'', Bool False)]"

definition ex_row_page :: page where
  "ex_row_page = ex_page\<lparr>list_items := [TaskItem ex_row], next_ref := 1\<rparr>"

lemma ex_row_page_wf: "wf_page ex_row_page"
  by (simp add: wf_page_def wf_items_def ex_row_page_def ex_page_def ex_row_def row_ok_iff
      ex_task1_def js_simps)

lemma ex_row_found: "find_row 0 (list_items ex_row_page) = Some ex_row"
  by (simp add: find_row_def ex_row_page_def ex_row_def)

lemma ex_task1_obj: "node_task ex_row = Obj [(jstr ''id'', Str (jstr ''1'')), (jstr ''title'', Str (jstr ''a'')),
     (jstr ''completed'', Bool False), (jstr ''createdAt'', Num 5)]"
  by (simp add: ex_row_def ex_task1_def)

lemma ex_input_nonblank: "js_trim (input_value ex_page) \<noteq> []"
  by (simp add: ex_page_def js_trim_Nil_iff jstr_def is_js_space_def)

subsection \<open>loadTasks\<close>

text \<open>C1: a successful load of an array whose \<^verbatim>\<open>createdAt\<close> values all yield a time
  replaces the list by one row per task, in the order of \<open>sort_key\<close> on the negated
  time (stable, so equal times keep the server's order), which is non-increasing in
  \<^verbatim>\<open>createdAt\<close>; the log is untouched.\<close>

theorem load_tasks_sorted:
  assumes "response_ok st" and "valid_times dp xs"
  shows "\<exists>ns. load_tasks dp (Responded st txt (Inr (Arr xs))) p =
      p\<lparr>list_items := map TaskItem ns, next_ref := next_ref p + length xs\<rparr>
    \<and> map node_task ns = sort_key (\<lambda>t. - task_ms dp t) xs
    \<and> sorted_wrt (\<ge>) (map (\<lambda>n. task_ms dp (node_task n)) ns)"
proof -
  let ?p = "p\<lparr>list_items := [Placeholder Loading]\<rparr>"
  from render_tasks_valid [OF assms(2), of ?p] obtain ns where
    r: "render_tasks dp (Arr xs) ?p =
          Inr (?p\<lparr>list_items := map TaskItem ns, next_ref := next_ref ?p + length xs\<rparr>)"
    and ns: "map node_task ns = sort_key (\<lambda>t. - task_ms dp t) xs"
    by blast
  have ok: "api_result (Responded st txt (Inr (Arr xs))) = Inr (Arr xs)"
    using assms(1) by simp
  have "load_tasks dp (Responded st txt (Inr (Arr xs))) p =
      p\<lparr>list_items := map TaskItem ns, next_ref := next_ref p + length xs\<rparr>"
    using r by (simp add: load_tasks_def load_start_page load_finish_ok [OF ok])
  moreover have "sorted_wrt (\<ge>) (map (\<lambda>n. task_ms dp (node_task n)) ns)"
  proof -
    have "map (\<lambda>n. task_ms dp (node_task n)) ns = map (task_ms dp) (sort_key (\<lambda>t. - task_ms dp t) xs)"
      by (simp flip: ns)
    then show ?thesis by (simp only:) (rule sorted_neg_key [OF sorted_sort_key])
  qed
  ultimately show ?thesis
    using ns by (intro exI [of _ ns]) simp
qed

theorem load_tasks_sorted_witness:
  "response_ok 200 \<and> valid_times ex_dp [ex_task1, ex_task2] \<and>
   (\<exists>ns. load_tasks ex_dp (Responded 200 [] (Inr (Arr [ex_task1, ex_task2]))) ex_page =
      ex_page\<lparr>list_items := map TaskItem ns, next_ref := next_ref ex_page + length [ex_task1, ex_task2]\<rparr>
    \<and> map node_task ns = sort_key (\<lambda>t. - task_ms ex_dp t) [ex_task1, ex_task2]
    \<and> sorted_wrt (\<ge>) (map (\<lambda>n. task_ms ex_dp (node_task n)) ns))"
proof -
  have h1: "response_ok 200" by (simp add: response_ok_def)
  have h2: "valid_times ex_dp [ex_task1, ex_task2]"
    by (simp add: valid_times_def created_time_def ex_task1_def ex_task2_def js_simps)
  show ?thesis using load_tasks_sorted [OF h1 h2] h1 h2 by blast
qed

text \<open>C2: when the fetch fails (network, non-2xx status or a body that is not JSON) the
  list shows the error row, and the user sees exactly one alert, raised by the
  transport wrapper.\<close>

theorem load_tasks_failed:
  assumes "api_result out = Inl e"
  shows "load_tasks dp out p = add_log (api_error_effects e) (p\<lparr>list_items := [Placeholder LoadFailed]\<rparr>)
    \<and> alert_count (io_log (load_tasks dp out p)) = Suc (alert_count (io_log p))"
proof -
  have "load_tasks dp out p = add_log (api_error_effects e) (p\<lparr>list_items := [Placeholder LoadFailed]\<rparr>)"
    by (simp add: load_tasks_def load_start_page load_finish_failed [OF assms])
  then show ?thesis by simp
qed

theorem load_tasks_failed_witness:
  "api_result (Rejected (jstr ''Failed to fetch'')) = Inl (FetchFailed (jstr ''Failed to fetch'')) \<and>
   load_tasks ex_dp (Rejected (jstr ''Failed to fetch'')) ex_page =
     add_log (api_error_effects (FetchFailed (jstr ''Failed to fetch'')))
       (ex_page\<lparr>list_items := [Placeholder LoadFailed]\<rparr>)
   \<and> alert_count (io_log (load_tasks ex_dp (Rejected (jstr ''Failed to fetch'')) ex_page)) =
     Suc (alert_count (io_log ex_page))"
proof -
  have h: "api_result (Rejected (jstr ''Failed to fetch'')) = Inl (FetchFailed (jstr ''Failed to fetch''))"
    by simp
  show ?thesis using load_tasks_failed [OF h] h by blast
qed



text \<open>C21: a successful load whose array holds a null element ends on the error row,
  with no alert and no log line: the TypeError of the comparator or of
  \<^verbatim>\<open>createTaskNode\<close> is caught by loadTasks, which reports nothing.\<close>

theorem load_tasks_bad_element:
  assumes "response_ok st" and "Null \<in> set xs \<or> Undef \<in> set xs"
  shows "load_tasks dp (Responded st txt (Inr (Arr xs))) p = p\<lparr>list_items := [Placeholder LoadFailed]\<rparr>"
proof -
  have ok: "api_result (Responded st txt (Inr (Arr xs))) = Inr (Arr xs)" using assms(1) by simp
  obtain e where "render_tasks dp (Arr xs) (p\<lparr>list_items := [Placeholder Loading]\<rparr>) = Inl e"
    using render_tasks_bad [OF assms(2)] by blast
  then show ?thesis by (simp add: load_tasks_def load_start_page load_finish_ok [OF ok])
qed

theorem load_tasks_bad_element_witness:
  "response_ok 200 \<and> (Null \<in> set [ex_task1, Null] \<or> Undef \<in> set [ex_task1, Null]) \<and>
   load_tasks ex_dp (Responded 200 [] (Inr (Arr [ex_task1, Null]))) ex_page =
     ex_page\<lparr>list_items := [Placeholder LoadFailed]\<rparr>"
proof -
  have h1: "response_ok 200" by (simp add: response_ok_def)
  have h2: "Null \<in> set [ex_task1, Null] \<or> Undef \<in> set [ex_task1, Null]" by simp
  show ?thesis using load_tasks_bad_element [OF h1 h2] h1 h2 by blast
qed

subsection \<open>addTask\<close>

text \<open>C5: an input of whitespace only (as \<^verbatim>\<open>trim\<close> defines it) issues no request
  and changes nothing but one \<^verbatim>\<open>focus()\<close> call.\<close>

theorem add_task_blank:
  assumes "\<forall>c \<in> set (input_value p). is_js_space c"
  shows "add_start p = (p\<lparr>focus_calls := Suc (focus_calls p)\<rparr>, None)
    \<and> add_task out p = p\<lparr>focus_calls := Suc (focus_calls p)\<rparr>"
proof -
  from assms have "js_trim (input_value p) = []" by (simp add: js_trim_Nil_iff)
  then show ?thesis by (simp add: add_task_def add_start_blank)
qed

theorem add_task_blank_witness:
  "list_all is_js_space (input_value (ex_page\<lparr>input_value := [0x20, 0x09, 0x3000]\<rparr>)) \<and>
   add_start (ex_page\<lparr>input_value := [0x20, 0x09, 0x3000]\<rparr>) =
     ((ex_page\<lparr>input_value := [0x20, 0x09, 0x3000]\<rparr>)\<lparr>focus_calls := Suc (focus_calls ex_page)\<rparr>, None) \<and>
   add_task (Rejected []) (ex_page\<lparr>input_value := [0x20, 0x09, 0x3000]\<rparr>) =
     (ex_page\<lparr>input_value := [0x20, 0x09, 0x3000]\<rparr>)\<lparr>focus_calls := Suc (focus_calls ex_page)\<rparr>"
proof -
  have h: "\<forall>c \<in> set (input_value (ex_page\<lparr>input_value := [0x20, 0x09, 0x3000]\<rparr>)). is_js_space c"
    by (simp add: is_js_space_def)
  show ?thesis using add_task_blank [OF h, of "Rejected []"] h by (simp add: list_all_iff)
qed

text \<open>C14: a non-blank input issues one POST to the collection whose payload is
  \<^verbatim>\<open>{title, completed: false}\<close>, the title being the input with leading and
  trailing whitespace removed and none left at either end.\<close>

theorem add_start_trims:
  assumes "add_start p = (p', Some req)"
  shows "p' = p \<and> (\<exists>title pre suf. req = api_request [] (json_options POST (task_payload title))
    \<and> input_value p = pre @ title @ suf \<and> (\<forall>c \<in> set pre. is_js_space c) \<and> (\<forall>c \<in> set suf. is_js_space c)
    \<and> title \<noteq> [] \<and> \<not> is_js_space (hd title) \<and> \<not> is_js_space (last title))"
proof -
  let ?t = "js_trim (input_value p)"
  have ne: "?t \<noteq> []"
    using assms by (cases "?t = []") (simp_all add: add_start_blank)
  from assms add_start_title [OF ne]
  have p': "p' = p" and req: "req = api_request [] (json_options POST (task_payload ?t))"
    by (metis Pair_inject option.inject)+
  let ?pre = "takeWhile is_js_space (input_value p)"
  let ?suf = "rev (takeWhile is_js_space (rev (dropWhile is_js_space (input_value p))))"
  have "input_value p = ?pre @ ?t @ ?suf" by (rule js_trim_decomp)
  moreover have "\<forall>c \<in> set ?pre. is_js_space c" "\<forall>c \<in> set ?suf. is_js_space c"
    by (auto dest: set_takeWhileD)
  moreover have "\<not> is_js_space (hd ?t)" "\<not> is_js_space (last ?t)"
    using ne by (simp_all add: js_trim_hd js_trim_last)
  ultimately show ?thesis using p' req ne by blast
qed

theorem add_start_trims_witness:
  "add_start ex_page = (ex_page, Some (api_request [] (json_options POST (task_payload (jstr ''buy milk''))))) \<and>
   (ex_page = ex_page \<and> (\<exists>title pre suf.
      api_request [] (json_options POST (task_payload (jstr ''buy milk''))) =
        api_request [] (json_options POST (task_payload title))
    \<and> input_value ex_page = pre @ title @ suf \<and> (\<forall>c \<in> set pre. is_js_space c) \<and> (\<forall>c \<in> set suf. is_js_space c)
    \<and> title \<noteq> [] \<and> \<not> is_js_space (hd title) \<and> \<not> is_js_space (last title)))"
proof -
  have h: "add_start ex_page = (ex_page, Some (api_request [] (json_options POST (task_payload (jstr ''buy milk'')))))"
    by (simp add: add_start_def ex_page_def js_trim_def is_js_space_def jstr_def)
  show ?thesis using add_start_trims [OF h] h by blast
qed

text \<open>C3: when the POST succeeds with a task object, exactly one row for it appears at
  the head of the list, the input is cleared and refocused; nothing is logged.\<close>

theorem add_task_success:
  assumes "js_trim (input_value p) \<noteq> []" and "api_result out = Inr t" and "t \<noteq> Null \<and> t \<noteq> Undef"
  shows "\<exists>n. add_task out p =
      p\<lparr>list_items := TaskItem n # list_items p, next_ref := Suc (next_ref p),
        input_value := [], focus_calls := Suc (focus_calls p)\<rparr>
    \<and> node_task n = t \<and> node_ref n = next_ref p"
proof -
  have "add_task out p = add_finish out p"
    using assms(1) by (simp add: add_task_def add_start_title)
  with add_finish_ok [OF assms(2,3), of p] show ?thesis by auto
qed

theorem add_task_success_witness:
  "js_trim (input_value ex_page) \<noteq> [] \<and> api_result (Responded 201 [] (Inr ex_task1)) = Inr ex_task1 \<and>
   ex_task1 \<noteq> Null \<and> ex_task1 \<noteq> Undef \<and>
   (\<exists>n. add_task (Responded 201 [] (Inr ex_task1)) ex_page =
      ex_page\<lparr>list_items := TaskItem n # list_items ex_page, next_ref := Suc (next_ref ex_page),
        input_value := [], focus_calls := Suc (focus_calls ex_page)\<rparr>
    \<and> node_task n = ex_task1 \<and> node_ref n = next_ref ex_page)"
proof -
  have h2: "api_result (Responded 201 [] (Inr ex_task1)) = Inr ex_task1" by (simp add: response_ok_def)
  have h3: "ex_task1 \<noteq> Null \<and> ex_task1 \<noteq> Undef" by (simp add: ex_task1_def)
  show ?thesis using add_task_success [OF ex_input_nonblank h2 h3] ex_input_nonblank h2 h3 by blast
qed

text \<open>C4: when the POST fails the list and the input are unchanged; the user sees
  exactly one alert, and two lines are logged (the wrapper's and addTask's).\<close>

theorem add_task_failed:
  assumes "js_trim (input_value p) \<noteq> []" and "api_result out = Inl e"
  shows "add_task out p = add_log (api_error_effects e @ [ConsoleError (jstr ''addTask error'') e]) p
    \<and> alert_count (io_log (add_task out p)) = Suc (alert_count (io_log p))"
proof -
  have "add_task out p = add_log (api_error_effects e @ [ConsoleError (jstr ''addTask error'') e]) p"
    using assms by (simp add: add_task_def add_start_title add_finish_failed)
  then show ?thesis by simp
qed

theorem add_task_failed_witness:
  "js_trim (input_value ex_page) \<noteq> [] \<and>
   api_result (Responded 500 (jstr ''boom'') (Inl [])) = Inl (HttpError 500 (jstr ''boom'')) \<and>
   add_task (Responded 500 (jstr ''boom'') (Inl [])) ex_page =
     add_log (api_error_effects (HttpError 500 (jstr ''boom'')) @
       [ConsoleError (jstr ''addTask error'') (HttpError 500 (jstr ''boom''))]) ex_page \<and>
   alert_count (io_log (add_task (Responded 500 (jstr ''boom'') (Inl [])) ex_page)) =
     Suc (alert_count (io_log ex_page))"
proof -
  have h: "api_result (Responded 500 (jstr ''boom'') (Inl [])) = Inl (HttpError 500 (jstr ''boom''))"
    by (simp add: response_ok_def)
  show ?thesis using add_task_failed [OF ex_input_nonblank h] ex_input_nonblank h by blast
qed



subsection \<open>toggleTask\<close>

text \<open>C6: when the PUT succeeds the row adopts the \<^verbatim>\<open>completed\<close> value of the server's
  reply, whatever was requested: the task object, the title's class and the button
  follow that value, and nothing else on the page changes.\<close>

theorem toggle_task_adopts:
  assumes "find_row r (list_items p) = Some n" and "node_task n = Obj kvs"
    and "api_result out = Inr upd" and "get_prop upd (jstr ''completed'') = Inr v" and "v \<noteq> Undef"
  shows "toggle_task r out p = p\<lparr>list_items := replace_row r
     (n\<lparr>node_task := Obj (obj_set kvs (jstr ''completed'') v), title_done := truthy v,
        toggle_html := toggle_glyph (truthy v), toggle_tip := toggle_tooltip (truthy v)\<rparr>) (list_items p)\<rparr>"
proof -
  have "toggle_start r p \<noteq> None"
    using assms(1,2) by (simp add: toggle_start_def toggle_request_obj)
  then have "toggle_task r out p = toggle_finish r out p"
    by (auto simp: toggle_task_def)
  also have "\<dots> = p\<lparr>list_items := replace_row r
     (n\<lparr>node_task := Obj (obj_set kvs (jstr ''completed'') v), title_done := truthy v,
        toggle_html := toggle_glyph (truthy v), toggle_tip := toggle_tooltip (truthy v)\<rparr>) (list_items p)\<rparr>"
    using toggle_finish_ok [OF assms(3,4,1,2)] assms(5) by (simp add: class_toggle_def)
  finally show ?thesis .
qed

theorem toggle_task_adopts_witness:
  "find_row 0 (list_items ex_row_page) = Some ex_row \<and>
   node_task ex_row = Obj [(jstr ''id'', Str (jstr ''1'')), (jstr ''title'', Str (jstr ''a'')),
     (jstr ''completed'', Bool False), (jstr ''createdAt'', Num 5)] \<and>
   api_result (Responded 200 [] (Inr ex_reply)) = Inr ex_reply \<and>
   get_prop ex_reply (jstr ''completed'') = Inr (Bool True) \<and> Bool True \<noteq> Undef \<and>
   toggle_task 0 (Responded 200 [] (Inr ex_reply)) ex_row_page = ex_row_page\<lparr>list_items := replace_row 0
     (ex_row\<lparr>node_task := Obj (obj_set [(jstr ''id'', Str (jstr ''1'')), (jstr ''title'', Str (jstr ''a'')),
          (jstr ''completed'', Bool False), (jstr ''createdAt'', Num 5)] (jstr ''completed'') (Bool True)),
        title_done := truthy (Bool True), toggle_html := toggle_glyph (truthy (Bool True)),
        toggle_tip := toggle_tooltip (truthy (Bool True))\<rparr>) (list_items ex_row_page)\<rparr>"
proof -
  have h3: "api_result (Responded 200 [] (Inr ex_reply)) = Inr ex_reply" by (simp add: response_ok_def)
  have h4: "get_prop ex_reply (jstr ''completed'') = Inr (Bool True)"
    by (simp add: ex_reply_def js_simps)
  have h5: "Bool True \<noteq> Undef" by simp
  show ?thesis using toggle_task_adopts [OF ex_row_found ex_task1_obj h3 h4 h5]
      ex_row_found ex_task1_obj h3 h4 h5 by blast
qed

text \<open>C15: the PUT goes to the collection URL followed by \<^verbatim>\<open>/\<close> and the row's
  \<^verbatim>\<open>data-id\<close>, and its body is the task with \<^verbatim>\<open>completed\<close> negated and every other
  property kept.\<close>

theorem toggle_request_target:
  assumes "wf_page p" and "find_row r (list_items p) = Some n" and "node_task n = Obj kvs"
  shows "\<exists>kvs'. toggle_start r p = Some (api_request (47 # data_id n) (json_options PUT (Obj kvs')))
    \<and> obj_lookup kvs' (jstr ''completed'') = Bool (\<not> truthy (obj_lookup kvs (jstr ''completed'')))
    \<and> (\<forall>k. k \<noteq> jstr ''completed'' \<longrightarrow> obj_lookup kvs' k = obj_lookup kvs k)"
proof -
  have "row_ok n" using assms(1,2) by (simp add: wf_page_def wf_find_row_ok)
  with assms(3) have did: "data_id n = to_string (obj_lookup kvs (jstr ''id''))"
    by (simp add: row_ok_iff)
  let ?kvs' = "obj_set kvs (jstr ''completed'') (Bool (\<not> truthy (obj_lookup kvs (jstr ''completed''))))"
  have "toggle_start r p = Some (api_request (47 # data_id n) (json_options PUT (Obj ?kvs')))"
    using assms(2,3) did by (simp add: toggle_start_def toggle_request_obj)
  then show ?thesis by (intro exI [of _ ?kvs']) simp
qed

theorem toggle_request_target_witness:
  "wf_page ex_row_page \<and> find_row 0 (list_items ex_row_page) = Some ex_row \<and>
   node_task ex_row = Obj [(jstr ''id'', Str (jstr ''1'')), (jstr ''title'', Str (jstr ''a'')),
     (jstr ''completed'', Bool False), (jstr ''createdAt'', Num 5)] \<and>
   (\<exists>kvs'. toggle_start 0 ex_row_page = Some (api_request (47 # data_id ex_row) (json_options PUT (Obj kvs')))
    \<and> obj_lookup kvs' (jstr ''completed'') = Bool (\<not> truthy (obj_lookup [(jstr ''id'', Str (jstr ''1'')),
        (jstr ''title'', Str (jstr ''a'')), (jstr ''completed'', Bool False), (jstr ''createdAt'', Num 5)]
        (jstr ''completed'')))
    \<and> (\<forall>k. k \<noteq> jstr ''completed'' \<longrightarrow> obj_lookup kvs' k = obj_lookup [(jstr ''id'', Str (jstr ''1'')),
        (jstr ''title'', Str (jstr ''a'')), (jstr ''completed'', Bool False), (jstr ''createdAt'', Num 5)] k))"
  using toggle_request_target [OF ex_row_page_wf ex_row_found ex_task1_obj]
    ex_row_page_wf ex_row_found ex_task1_obj by blast

text \<open>C7: when the PUT fails the page is unchanged but for the log: one alert and two
  console lines.\<close>

theorem toggle_task_failed:
  assumes "toggle_start r p \<noteq> None" and "api_result out = Inl e"
  shows "toggle_task r out p = add_log (api_error_effects e @ [ConsoleError (jstr ''toggleTask error'') e]) p"
proof -
  from assms(1) have "toggle_task r out p = toggle_finish r out p"
    by (auto simp: toggle_task_def)
  with assms(2) show ?thesis by (simp add: toggle_finish_failed)
qed

theorem toggle_task_failed_witness:
  "toggle_start 0 ex_row_page \<noteq> None \<and>
   api_result (Rejected (jstr ''offline'')) = Inl (FetchFailed (jstr ''offline'')) \<and>
   toggle_task 0 (Rejected (jstr ''offline'')) ex_row_page =
     add_log (api_error_effects (FetchFailed (jstr ''offline'')) @
       [ConsoleError (jstr ''toggleTask error'') (FetchFailed (jstr ''offline''))]) ex_row_page"
proof -
  have h1: "toggle_start 0 ex_row_page \<noteq> None"
    using ex_row_found ex_task1_obj by (simp add: toggle_start_def toggle_request_obj)
  have h2: "api_result (Rejected (jstr ''offline'')) = Inl (FetchFailed (jstr ''offline''))" by simp
  show ?thesis using toggle_task_failed [OF h1 h2] h1 h2 by blast
qed

text \<open>C19: a successful reply that has no \<^verbatim>\<open>completed\<close> property sets the task's
  \<^verbatim>\<open>completed\<close> to undefined; \<^verbatim>\<open>classList.toggle\<close> then flips the title's class
  while the button shows the task as not done, so an open task is drawn completed
  with a "mark as done" button.\<close>

theorem toggle_missing_completed:
  assumes "find_row r (list_items p) = Some n" and "node_task n = Obj kvs"
    and "api_result out = Inr (Obj ukvs)" and "map_of ukvs (jstr ''completed'') = None"
  shows "\<exists>n'. toggle_task r out p = p\<lparr>list_items := replace_row r n' (list_items p)\<rparr>
    \<and> title_done n' = (\<not> title_done n) \<and> toggle_html n' = toggle_glyph False
    \<and> toggle_tip n' = toggle_tooltip False"
proof -
  have v: "get_prop (Obj ukvs) (jstr ''completed'') = Inr Undef"
    using assms(4) by (simp add: js_simps)
  have "toggle_start r p \<noteq> None"
    using assms(1,2) by (simp add: toggle_start_def toggle_request_obj)
  then have "toggle_task r out p = toggle_finish r out p"
    by (auto simp: toggle_task_def)
  also have "\<dots> = p\<lparr>list_items := replace_row r
     (n\<lparr>node_task := Obj (obj_set kvs (jstr ''completed'') Undef),
        title_done := class_toggle (title_done n) Undef,
        toggle_html := toggle_glyph (truthy Undef), toggle_tip := toggle_tooltip (truthy Undef)\<rparr>)
     (list_items p)\<rparr>"
    by (rule toggle_finish_ok [OF assms(3) v assms(1,2)])
  finally show ?thesis
    by (intro exI [of _ "n\<lparr>node_task := Obj (obj_set kvs (jstr ''completed'') Undef),
        title_done := class_toggle (title_done n) Undef,
        toggle_html := toggle_glyph (truthy Undef), toggle_tip := toggle_tooltip (truthy Undef)\<rparr>"])
      (simp add: class_toggle_def)
qed

theorem toggle_missing_completed_witness:
  "find_row 0 (list_items ex_row_page) = Some ex_row \<and>
   node_task ex_row = Obj [(jstr ''id'', Str (jstr ''1'')), (jstr ''title'', Str (jstr ''a'')),
     (jstr ''completed'', Bool False), (jstr ''createdAt'', Num 5)] \<and>
   api_result (Responded 200 [] (Inr (Obj [(jstr ''id'', Str (jstr ''1''))]))) =
     Inr (Obj [(jstr ''id'', Str (jstr ''1''))]) \<and>
   map_of [(jstr ''id'', Str (jstr ''1''))] (jstr ''completed'') = None \<and>
   (\<exists>n'. toggle_task 0 (Responded 200 [] (Inr (Obj [(jstr ''id'', Str (jstr ''1''))]))) ex_row_page =
      ex_row_page\<lparr>list_items := replace_row 0 n' (list_items ex_row_page)\<rparr>
    \<and> title_done n' = (\<not> title_done ex_row) \<and> toggle_html n' = toggle_glyph False
    \<and> toggle_tip n' = toggle_tooltip False)"
proof -
  have h3: "api_result (Responded 200 [] (Inr (Obj [(jstr ''id'', Str (jstr ''1''))]))) =
     Inr (Obj [(jstr ''id'', Str (jstr ''1''))])" by (simp add: response_ok_def)
  have h4: "map_of [(jstr ''id'', Str (jstr ''1''))] (jstr ''completed'') = None" by simp
  show ?thesis using toggle_missing_completed [OF ex_row_found ex_task1_obj h3 h4]
      ex_row_found ex_task1_obj h3 h4 by blast
qed

subsection \<open>deleteTask\<close>

text \<open>C9: declining the confirmation dialog issues no request and leaves the page
  as it was.\<close>

theorem delete_declined: "delete_start r False p = None \<and> delete_task r False out p = p"
  by (simp add: delete_task_def delete_start_def split: option.split sum.split)

text \<open>C8: a confirmed deletion that succeeds removes exactly the clicked row; when it
  was the only child of the list, the "no tasks" row replaces it.\<close>

theorem delete_task_success:
  assumes "wf_page p" and "find_row r (list_items p) = Some n" and "api_result out = Inr v"
  shows "delete_task r True out p = p\<lparr>list_items :=
      (if list_items p = [TaskItem n] then [Placeholder NoTasks] else remove_row r (list_items p))\<rparr>
    \<and> task_nodes (remove_row r (list_items p)) = remove1 n (task_nodes (list_items p))"
proof -
  have wf: "wf_items (next_ref p) (list_items p)" using assms(1) by (simp add: wf_page_def)
  have "row_ok n" using wf assms(2) by (rule wf_find_row_ok)
  with assms(2) have "delete_task r True out p = delete_finish r out p"
    by (simp add: delete_task_def delete_start_row)
  also have "\<dots> = p\<lparr>list_items :=
      (if list_items p = [TaskItem n] then [Placeholder NoTasks] else remove_row r (list_items p))\<rparr>"
    using delete_finish_ok [OF assms(3)] remove_row_Nil_iff [OF wf assms(2)] by simp
  finally show ?thesis using task_nodes_remove_row_found [OF wf assms(2)] by simp
qed

theorem delete_task_success_witness:
  "wf_page ex_row_page \<and> find_row 0 (list_items ex_row_page) = Some ex_row \<and>
   api_result (Responded 200 [] (Inr ex_task1)) = Inr ex_task1 \<and>
   delete_task 0 True (Responded 200 [] (Inr ex_task1)) ex_row_page = ex_row_page\<lparr>list_items :=
      (if list_items ex_row_page = [TaskItem ex_row] then [Placeholder NoTasks]
       else remove_row 0 (list_items ex_row_page))\<rparr>
   \<and> task_nodes (remove_row 0 (list_items ex_row_page)) = remove1 ex_row (task_nodes (list_items ex_row_page))"
proof -
  have h: "api_result (Responded 200 [] (Inr ex_task1)) = Inr ex_task1" by (simp add: response_ok_def)
  show ?thesis using delete_task_success [OF ex_row_page_wf ex_row_found h]
      ex_row_page_wf ex_row_found h by blast
qed



subsection \<open>Start-up\<close>

text \<open>C22: with the configured URL the start-up guard passes and the page starts
  loading: no alert, the loading row, and one GET of the collection.\<close>

theorem boot_configured:
  "boot api_url p = (p\<lparr>list_items := [Placeholder Loading]\<rparr>, Some (api_request [] default_options))"
  using api_url_configured by (simp add: boot_def load_start_def)

end
