(* ===== verification/Interleaving.thy ===== *)
theory Interleaving
  imports Handlers
begin

text \<open>
  The page under the browser's event loop. Every handler of app.js suspends at its
  one \<^verbatim>\<open>await apiFetch(...)\<close>; while its request is in flight the user may type,
  click again, or other requests may settle, in any order. A world is the page
  together with the requests in flight, each tagged with the continuation that waits
  for it. An event is a user action (an edit of the input, a click, a key) or the
  settling of one pending request, whichever it is; \<open>world_step\<close> runs the listener
  or the continuation synchronously to its next suspension, as the event loop does.
  \<open>reachable\<close> is the set of worlds that the start-up script and any sequence of events
  produce, and \<open>run\<close> executes a given sequence.
\<close>

datatype pending =
    PLoad            \<comment> \<open>\<^verbatim>\<open>loadTasks\<close> awaiting the GET\<close>
  | PAdd             \<comment> \<open>\<^verbatim>\<open>addTask\<close> awaiting the POST\<close>
  | PToggle nat      \<comment> \<open>\<^verbatim>\<open>toggleTask\<close> of the row with this reference, awaiting the PUT\<close>
  | PDelete nat      \<comment> \<open>\<^verbatim>\<open>deleteTask\<close> of the row with this reference, awaiting the DELETE\<close>

record world =
  w_page :: page
  w_pending :: "(pending \<times> request) list"

datatype event =
    Input jstring                \<comment> \<open>the user edits the text field\<close>
  | ClickAdd                     \<comment> \<open>click on \<^verbatim>\<open>addBtn\<close>\<close>
  | KeyDown jstring              \<comment> \<open>\<^verbatim>\<open>keydown\<close> on \<^verbatim>\<open>taskInput\<close>, with \<^verbatim>\<open>e.key\<close>\<close>
  | ClickToggle nat              \<comment> \<open>click on the toggle button of a row\<close>
  | ClickDelete nat bool         \<comment> \<open>click on the delete button of a row, and the answer to \<^verbatim>\<open>confirm\<close>\<close>
  | Settle nat fetch_outcome     \<comment> \<open>the \<open>i\<close>-th request in flight settles\<close>

text \<open>The page as the script finds it: an empty input and an empty list.\<close>

definition initial_page :: page where
  "initial_page = \<lparr>input_value = [], focus_calls = 0, list_items = [], io_log = [], next_ref = 0\<rparr>"

text \<open>A listener's synchronous part: the page it leaves and the request it suspends
  on, if it issued one.\<close>

definition issue :: "pending \<Rightarrow> page \<times> request option \<Rightarrow> world \<Rightarrow> world" where
  "issue k r w = (case r of
       (p, None) \<Rightarrow> w\<lparr>w_page := p\<rparr>
     | (p, Some req) \<Rightarrow> \<lparr>w_page = p, w_pending = w_pending w @ [(k, req)]\<rparr>)"

text \<open>The continuation a settled request resumes.\<close>

fun resume :: "date_parser \<Rightarrow> pending \<Rightarrow> fetch_outcome \<Rightarrow> page \<Rightarrow> page" where
  "resume dp PLoad out p = load_finish dp out p"
| "resume dp PAdd out p = add_finish out p"
| "resume dp (PToggle r) out p = toggle_finish r out p"
| "resume dp (PDelete r) out p = delete_finish r out p"

definition del_at :: "nat \<Rightarrow> 'a list \<Rightarrow> 'a list" where
  "del_at i xs = take i xs @ drop (Suc i) xs"

text \<open>Lines 143--146 and the listeners \<^verbatim>\<open>createTaskNode\<close> registers (50, 57): a row's
  buttons can be clicked only while the row is in the list. \<open>None\<close>: the event
  cannot happen in this world.\<close>

fun world_step :: "date_parser \<Rightarrow> event \<Rightarrow> world \<Rightarrow> world option" where
  "world_step dp (Input s) w = Some (w\<lparr>w_page := (w_page w)\<lparr>input_value := s\<rparr>\<rparr>)"
| "world_step dp ClickAdd w = Some (issue PAdd (add_start (w_page w)) w)"
| "world_step dp (KeyDown k) w = Some (issue PAdd (key_down k (w_page w)) w)"
| "world_step dp (ClickToggle r) w =
     (if find_row r (list_items (w_page w)) = None then None
      else Some (issue (PToggle r) (w_page w, toggle_start r (w_page w)) w))"
| "world_step dp (ClickDelete r ok) w =
     (if find_row r (list_items (w_page w)) = None then None
      else Some (issue (PDelete r) (w_page w, delete_start r ok (w_page w)) w))"
| "world_step dp (Settle i out) w =
     (if i < length (w_pending w)
      then Some \<lparr>w_page = resume dp (fst (w_pending w ! i)) out (w_page w),
                 w_pending = del_at i (w_pending w)\<rparr>
      else None)"

fun run :: "date_parser \<Rightarrow> event list \<Rightarrow> world \<Rightarrow> world option" where
  "run dp [] w = Some w"
| "run dp (e # es) w = Option.bind (world_step dp e w) (run dp es)"

text \<open>Lines 149--153 on the initial page: the start-up guard and, when the URL is
  configured, the first load in flight.\<close>

definition boot_world :: "jstring \<Rightarrow> world" where
  "boot_world url = (case boot url initial_page of
       (p, None) \<Rightarrow> \<lparr>w_page = p, w_pending = []\<rparr>
     | (p, Some req) \<Rightarrow> \<lparr>w_page = p, w_pending = [(PLoad, req)]\<rparr>)"

inductive reachable :: "date_parser \<Rightarrow> jstring \<Rightarrow> world \<Rightarrow> bool" for dp url where
  reachable_boot: "reachable dp url (boot_world url)"
| reachable_step: "reachable dp url w \<Longrightarrow> world_step dp e w = Some w' \<Longrightarrow> reachable dp url w'"

text \<open>Row references only grow: every row of the later page was a row of the earlier
  one or was created after it, with a reference at or above its counter.\<close>

definition keeps_refs :: "page \<Rightarrow> page \<Rightarrow> bool" where
  "keeps_refs p p' \<longleftrightarrow> next_ref p \<le> next_ref p' \<and>
     (\<forall>r \<in> set (refs_of (list_items p')). r \<in> set (refs_of (list_items p)) \<or> next_ref p \<le> r)"

subsection \<open>Runs and reachability\<close>

lemma run_append: "run dp (es @ fs) w = Option.bind (run dp es w) (run dp fs)"
  by (induction es arbitrary: w) (auto split: Option.bind_split)

lemma reachable_run: "reachable dp url w \<longleftrightarrow> (\<exists>es. run dp es (boot_world url) = Some w)"
proof
  assume "reachable dp url w"
  then show "\<exists>es. run dp es (boot_world url) = Some w"
  proof induction
    case reachable_boot
    show ?case by (rule exI [of _ "[]"]) simp
  next
    case (reachable_step w e w')
    then obtain es where "run dp es (boot_world url) = Some w" by blast
    with reachable_step.hyps(2) have "run dp (es @ [e]) (boot_world url) = Some w'"
      by (simp add: run_append)
    then show ?case by blast
  qed
next
  have "reachable dp url w \<Longrightarrow> run dp es w = Some w' \<Longrightarrow> reachable dp url w'" for es w w'
  proof (induction es arbitrary: w)
    case (Cons e es)
    then obtain w1 where "world_step dp e w = Some w1" "run dp es w1 = Some w'"
      by (auto split: Option.bind_splits)
    with Cons show ?case by (blast intro: reachable_step)
  qed simp
  then show "\<exists>es. run dp es (boot_world url) = Some w \<Longrightarrow> reachable dp url w"
    by (blast intro: reachable_boot)
qed

subsection \<open>Row references under each handler half\<close>

lemma keeps_refs_refl [simp]: "keeps_refs p p"
  by (simp add: keeps_refs_def)

lemma keeps_refs_trans: "keeps_refs p1 p2 \<Longrightarrow> keeps_refs p2 p3 \<Longrightarrow> keeps_refs p1 p3"
  unfolding keeps_refs_def by (meson order_trans)

lemma keeps_refs_same_items:
  "list_items p' = list_items p \<Longrightarrow> next_ref p \<le> next_ref p' \<Longrightarrow> keeps_refs p p'"
  by (simp add: keeps_refs_def)

lemma keeps_refs_fresh:
  "next_ref p \<le> next_ref p' \<Longrightarrow> \<forall>r \<in> set (refs_of (list_items p')). next_ref p \<le> r \<Longrightarrow> keeps_refs p p'"
  by (simp add: keeps_refs_def)

lemma keeps_refs_add_log [simp]: "keeps_refs p (add_log es p)"
  by (simp add: keeps_refs_same_items)

lemma keeps_refs_log_error [simp]: "keeps_refs p (log_error l e p)"
  by (simp add: log_error_def)

lemma keeps_refs_append_nodes: "append_nodes ys p = Inr p' \<Longrightarrow> keeps_refs p p'"
proof (induction ys arbitrary: p)
  case (Cons t ts)
  then obtain n where n: "create_task_node (next_ref p) t = Inr n"
    and rest: "append_nodes ts (p\<lparr>list_items := list_items p @ [TaskItem n], next_ref := Suc (next_ref p)\<rparr>) = Inr p'"
    by (auto simp: res_bind_eq_Inr)
  have "node_ref n = next_ref p" using create_task_node_ref [OF n] by simp
  then have "keeps_refs p (p\<lparr>list_items := list_items p @ [TaskItem n], next_ref := Suc (next_ref p)\<rparr>)"
    by (simp add: keeps_refs_def)
  with Cons.IH [OF rest] show ?case by (blast intro: keeps_refs_trans)
qed simp

lemma keeps_refs_render_tasks:
  assumes "render_tasks dp v p = Inr p'"
  shows "keeps_refs p p'"
proof -
  have "keeps_refs (p\<lparr>list_items := []\<rparr>) p'"
  proof (cases v)
    case (Arr xs)
    with assms show ?thesis
      by (cases "xs = []") (auto simp: render_tasks_def res_bind_eq_Inr dest: keeps_refs_append_nodes)
  qed (use assms in \<open>simp_all add: render_tasks_def\<close>)
  then show ?thesis by (simp add: keeps_refs_def)
qed

lemma keeps_refs_load_finish: "keeps_refs p (load_finish dp out p)"
proof (cases "api_result out")
  case (Inl e)
  then show ?thesis by (simp add: load_finish_failed keeps_refs_fresh)
next
  case (Inr v)
  then show ?thesis
    by (cases "render_tasks dp v p") (simp_all add: load_finish_ok keeps_refs_fresh keeps_refs_render_tasks)
qed

lemma keeps_refs_add_start: "keeps_refs p (fst (add_start p))"
  by (simp add: add_start_def Let_def keeps_refs_same_items)

lemma keeps_refs_key_down: "keeps_refs p (fst (key_down k p))"
  by (simp add: key_down_def keeps_refs_add_start)

lemma keeps_refs_add_finish: "keeps_refs p (add_finish out p)"
proof (cases "api_result out")
  case (Inl e)
  then show ?thesis by (simp add: add_finish_failed)
next
  case (Inr t)
  show ?thesis
  proof (cases "create_task_node (next_ref p) t")
    case (Inl e)
    with Inr show ?thesis by (simp add: add_finish_def page_simps)
  next
    case (Inr n)
    with \<open>api_result out = Inr t\<close> show ?thesis
      by (simp add: add_finish_def page_simps keeps_refs_def create_task_node_ref)
  qed
qed

lemma keeps_refs_toggle_finish: "keeps_refs p (toggle_finish r out p)"
proof (cases rule: toggle_finish_cases [of r out p])
  case (row v n n')
  then have "node_ref n' = r" by (metis toggle_apply_ref find_row_Some)
  with row(3) show ?thesis by (simp add: keeps_refs_same_items refs_of_replace_row keeps_refs_def)
qed simp

lemma keeps_refs_delete_finish: "keeps_refs p (delete_finish r out p)"
  by (cases "api_result out")
    (auto simp: delete_finish_failed delete_finish_ok keeps_refs_def refs_of_remove_row)

lemma keeps_refs_resume: "keeps_refs p (resume dp k out p)"
  by (cases k) (simp_all add: keeps_refs_load_finish keeps_refs_add_finish keeps_refs_toggle_finish
      keeps_refs_delete_finish)

lemma w_page_issue: "w_page (issue k r w) = fst r"
  by (simp add: issue_def split: prod.split option.split)

lemma keeps_refs_step:
  "world_step dp e w = Some w' \<Longrightarrow> keeps_refs (w_page w) (w_page w')"
  by (cases e) (auto simp: w_page_issue keeps_refs_same_items keeps_refs_add_start keeps_refs_key_down
      keeps_refs_resume split: if_splits)

lemma keeps_refs_run: "run dp es w = Some w' \<Longrightarrow> keeps_refs (w_page w) (w_page w')"
proof (induction es arbitrary: w)
  case (Cons e es)
  then obtain w1 where "world_step dp e w = Some w1" "run dp es w1 = Some w'"
    by (auto split: Option.bind_splits)
  with Cons.IH show ?case by (blast intro: keeps_refs_trans keeps_refs_step)
qed simp

subsection \<open>Facts about the continuations\<close>

lemma render_tasks_items: "render_tasks dp v (p\<lparr>list_items := xs\<rparr>) = render_tasks dp v p"
  by (simp add: render_tasks_def)

lemma load_finish_items: "load_finish dp out (p\<lparr>list_items := xs\<rparr>) = load_finish dp out p"
  by (cases "api_result out") (simp_all add: load_finish_ok load_finish_failed render_tasks_items split: sum.split)

lemma boot_world_configured:
  "boot_world api_url = \<lparr>w_page = initial_page\<lparr>list_items := [Placeholder Loading]\<rparr>,
     w_pending = [(PLoad, api_request [] default_options)]\<rparr>"
  using api_url_configured by (simp add: boot_world_def boot_def load_start_def)

lemma toggle_start_Some_row: "toggle_start r p = Some req \<Longrightarrow> find_row r (list_items p) \<noteq> None"
  by (cases "find_row r (list_items p)") (simp_all add: toggle_start_def)

subsection \<open>Well-formedness under every event\<close>

lemma wf_page_input [simp]: "wf_page (p\<lparr>input_value := s\<rparr>) = wf_page p"
  by (simp add: wf_page_def)

lemma wf_resume: "wf_page p \<Longrightarrow> wf_page (resume dp k out p)"
  by (cases k) (simp_all add: wf_load_finish wf_add_finish wf_toggle_finish wf_delete_finish)

lemma wf_step: "wf_page (w_page w) \<Longrightarrow> world_step dp e w = Some w' \<Longrightarrow> wf_page (w_page w')"
  by (cases e) (auto simp: w_page_issue wf_add_start key_down_def wf_resume split: if_splits)

lemma wf_boot_world: "wf_page (w_page (boot_world url))"
  by (simp add: boot_world_def boot_def initial_page_def load_start_def wf_page_def split: prod.split)

lemma w_pending_input [simp]: "w_pending (w\<lparr>w_page := p\<rparr>) = w_pending w"
  by simp

lemma run_settle_all:
  "length outs = length (w_pending w) \<Longrightarrow>
   \<exists>w'. run dp (map (Settle 0) outs) w = Some w' \<and> w_pending w' = []"
proof (induction outs arbitrary: w)
  case Nil
  then show ?case by simp
next
  case (Cons out outs)
  let ?w1 = "\<lparr>w_page = resume dp (fst (w_pending w ! 0)) out (w_page w), w_pending = del_at 0 (w_pending w)\<rparr>"
  from Cons.prems have "0 < length (w_pending w)" by (metis length_Cons zero_less_Suc)
  then have "world_step dp (Settle 0 out) w = Some ?w1" by simp
  moreover from Cons.prems have "length outs = length (w_pending ?w1)" by (simp add: del_at_def)
  ultimately show ?case using Cons.IH [of ?w1] by simp
qed

end
