(* ===== verification/Registry.thy ===== *)
theory Registry
  imports Interleaving
begin

text \<open>
  An abstract specification of the list (the spec's section 9): a registry of the
  rows shown, each an element reference with its task object, of which the page is a
  pure projection. \<open>projected\<close> says that every row is exactly what
  \<^verbatim>\<open>createTaskNode\<close> builds from its reference and its current task object, so that
  the registry \<open>rows_of\<close> determines the rows; \<open>reg_resume\<close> is what each handler's
  continuation does to the registry, on success and on failure (the spec's 4.3).
  The refinement lemma shows that every continuation implements its registry
  operation and keeps the page a projection, for the replies \<open>ok_reply\<close> admits:
  objects for tasks, valid dates for a load, a defined \<^verbatim>\<open>completed\<close> for a toggle.
\<close>

type_synonym registry = "(nat \<times> jv) list"

fun is_obj :: "jv \<Rightarrow> bool" where
  "is_obj (Obj kvs) = True"
| "is_obj v = False"

definition projected_row :: "task_node \<Rightarrow> bool" where
  "projected_row n \<longleftrightarrow> is_obj (node_task n) \<and> create_task_node (node_ref n) (node_task n) = Inr n"

definition projected :: "page \<Rightarrow> bool" where
  "projected p \<longleftrightarrow> (\<forall>n \<in> set (task_nodes (list_items p)). projected_row n)"

definition rows_of :: "page \<Rightarrow> registry" where
  "rows_of p = map (\<lambda>n. (node_ref n, node_task n)) (task_nodes (list_items p))"

text \<open>\<^verbatim>\<open>task.completed = c\<close> on a task object.\<close>

fun set_completed :: "jv \<Rightarrow> jv \<Rightarrow> jv" where
  "set_completed (Obj kvs) c = Obj (obj_set kvs (jstr ''completed'') c)"
| "set_completed t c = t"

definition reg_load :: "date_parser \<Rightarrow> nat \<Rightarrow> jv list \<Rightarrow> registry" where
  "reg_load dp base xs = zip [base..<base + length xs] (sort_key (\<lambda>t. - task_ms dp t) xs)"

text \<open>The registry operations: Load replaces the registry by the sorted collection
  (nothing when it fails), Create prepends the new task, Toggle adopts the server's
  \<^verbatim>\<open>completed\<close>, Delete removes the row; a failure changes nothing else.\<close>

fun reg_resume :: "date_parser \<Rightarrow> pending \<Rightarrow> js_error + jv \<Rightarrow> nat \<Rightarrow> registry \<Rightarrow> registry" where
  "reg_resume dp PLoad (Inl e) base reg = []"
| "reg_resume dp PLoad (Inr v) base reg = (case v of Arr xs \<Rightarrow> reg_load dp base xs | _ \<Rightarrow> [])"
| "reg_resume dp PAdd (Inl e) base reg = reg"
| "reg_resume dp PAdd (Inr v) base reg = (base, v) # reg"
| "reg_resume dp (PToggle r) (Inl e) base reg = reg"
| "reg_resume dp (PToggle r) (Inr v) base reg =
     (case get_prop v (jstr ''completed'') of
        Inl e \<Rightarrow> reg
      | Inr c \<Rightarrow> map (\<lambda>(r', t). (r', if r' = r then set_completed t c else t)) reg)"
| "reg_resume dp (PDelete r) (Inl e) base reg = reg"
| "reg_resume dp (PDelete r) (Inr v) base reg = filter (\<lambda>(r', t). r' \<noteq> r) reg"

fun ok_reply :: "date_parser \<Rightarrow> pending \<Rightarrow> js_error + jv \<Rightarrow> bool" where
  "ok_reply dp k (Inl e) = True"
| "ok_reply dp PLoad (Inr v) = (case v of Arr xs \<Rightarrow> valid_times dp xs \<and> list_all is_obj xs | _ \<Rightarrow> True)"
| "ok_reply dp PAdd (Inr v) = is_obj v"
| "ok_reply dp (PToggle r) (Inr v) = (case get_prop v (jstr ''completed'') of Inl e \<Rightarrow> True | Inr c \<Rightarrow> c \<noteq> Undef)"
| "ok_reply dp (PDelete r) (Inr v) = True"

text \<open>A server that stores the PUT body and answers with it, as spec 6 describes the
  resource (\<^verbatim>\<open>PUT /{id}\<close> returns the updated task), and one click on a row's toggle
  button against it, settled before anything else happens.\<close>

definition echo_server :: "request \<Rightarrow> fetch_outcome" where
  "echo_server req = Responded 200 [] (case opt_body (req_options req) of Some b \<Rightarrow> Inr b | None \<Rightarrow> Inr Null)"

definition toggle_echo :: "nat \<Rightarrow> page \<Rightarrow> page" where
  "toggle_echo r p = (case toggle_start r p of None \<Rightarrow> p | Some req \<Rightarrow> toggle_finish r (echo_server req) p)"

subsection \<open>Projection and registry of a page\<close>

lemma projected_add_log [simp]: "projected (add_log es p) = projected p"
  and rows_of_add_log [simp]: "rows_of (add_log es p) = rows_of p"
  by (simp_all add: projected_def rows_of_def)

lemma projected_log_error [simp]: "projected (log_error l e p) = projected p"
  and rows_of_log_error [simp]: "rows_of (log_error l e p) = rows_of p"
  by (simp_all add: log_error_def)

lemma projected_items_Nil [simp]: "projected (p\<lparr>list_items := []\<rparr>)"
  and projected_placeholder [simp]: "projected (p\<lparr>list_items := [Placeholder ph]\<rparr>)"
  by (simp_all add: projected_def)

lemma create_task_node_projected:
  "create_task_node r t = Inr n \<Longrightarrow> is_obj t \<Longrightarrow> projected_row n"
  using create_task_node_ref [of r t n] by (simp add: projected_row_def)

lemma projected_row_fields:
  assumes "projected_row n" and "node_task n = Obj kvs"
  shows "data_id n = to_string (obj_lookup kvs (jstr ''id''))
    \<and> title_text n = to_string (js_or (obj_lookup kvs (jstr ''title'')) (Str untitled))
    \<and> title_done n = truthy (obj_lookup kvs (jstr ''completed''))
    \<and> toggle_html n = toggle_glyph (truthy (obj_lookup kvs (jstr ''completed'')))
    \<and> toggle_tip n = toggle_tooltip (truthy (obj_lookup kvs (jstr ''completed'')))"
proof -
  from assms have "create_task_node (node_ref n) (Obj kvs) = Inr n" by (simp add: projected_row_def)
  then have "\<lparr>node_ref = node_ref n, data_id = to_string (obj_lookup kvs (jstr ''id'')), node_task = Obj kvs,
      title_text = to_string (js_or (obj_lookup kvs (jstr ''title'')) (Str untitled)),
      title_done = truthy (obj_lookup kvs (jstr ''completed'')),
      toggle_html = toggle_glyph (truthy (obj_lookup kvs (jstr ''completed''))),
      toggle_tip = toggle_tooltip (truthy (obj_lookup kvs (jstr ''completed'')))\<rparr> = n"
    by (simp add: create_task_node_def)
  then show ?thesis by (metis task_node.select_convs(2,4,5,6,7))
qed

text \<open>The page is a function of its registry: its rows are what \<^verbatim>\<open>createTaskNode\<close>
  builds from the registry's entries.\<close>

lemma projected_rows_of:
  "projected p \<Longrightarrow> map Inr (task_nodes (list_items p)) = map (\<lambda>(r, t). create_task_node r t) (rows_of p)"
  by (induction "list_items p" arbitrary: p rule: task_nodes.induct)
    (auto simp: projected_def rows_of_def projected_row_def)

lemma projected_Cons [simp]:
  "projected (p\<lparr>list_items := TaskItem n # xs\<rparr>) \<longleftrightarrow> projected_row n \<and> projected (p\<lparr>list_items := xs\<rparr>)"
  by (simp add: projected_def)

lemma rows_of_remove_row:
  "rows_of (p\<lparr>list_items := remove_row r xs\<rparr>) = filter (\<lambda>(r', t). r' \<noteq> r) (rows_of (p\<lparr>list_items := xs\<rparr>))"
  by (simp add: rows_of_def task_nodes_remove_row filter_map comp_def)

lemma projected_remove_row: "projected (p\<lparr>list_items := xs\<rparr>) \<Longrightarrow> projected (p\<lparr>list_items := remove_row r xs\<rparr>)"
  by (simp add: projected_def task_nodes_remove_row)

lemma wf_row_unique:
  assumes "wf_items nr xs" and "find_row r xs = Some n" and "m \<in> set (task_nodes xs)" and "node_ref m = r"
  shows "m = n"
proof -
  from assms(1) have "distinct (map node_ref (task_nodes xs))" by (simp add: wf_items_def refs_of_def)
  then have "inj_on node_ref (set (task_nodes xs))" by (simp add: distinct_map)
  moreover from assms(2) have "n \<in> set (task_nodes xs)" "node_ref n = r" by (auto dest: find_row_Some)
  ultimately show ?thesis using assms(3,4) by (metis inj_onD)
qed

lemma projected_append_nodes:
  "append_nodes ys p = Inr p' \<Longrightarrow> projected p \<Longrightarrow> list_all is_obj ys \<Longrightarrow> projected p'"
proof (induction ys arbitrary: p)
  case (Cons t ts)
  then obtain n where n: "create_task_node (next_ref p) t = Inr n"
    and rest: "append_nodes ts (p\<lparr>list_items := list_items p @ [TaskItem n], next_ref := Suc (next_ref p)\<rparr>) = Inr p'"
    by (auto simp: res_bind_eq_Inr)
  have "projected_row n" using create_task_node_projected [OF n] Cons.prems(3) by simp
  with Cons.prems(2) have "projected (p\<lparr>list_items := list_items p @ [TaskItem n], next_ref := Suc (next_ref p)\<rparr>)"
    by (simp add: projected_def)
  with Cons.IH [OF rest] Cons.prems(3) show ?case by simp
qed simp

lemma projected_render_tasks:
  assumes "render_tasks dp v p = Inr p'" and "case v of Arr xs \<Rightarrow> list_all is_obj xs | _ \<Rightarrow> True"
  shows "projected p'"
proof (cases "\<exists>xs. v = Arr xs \<and> xs \<noteq> []")
  case True
  then obtain xs where Arr: "v = Arr xs" and ne: "xs \<noteq> []" by blast
  with assms(1) have "res_bind (js_sort (compare_created dp) xs) (\<lambda>ys. append_nodes ys (p\<lparr>list_items := []\<rparr>)) = Inr p'"
    by (simp add: render_tasks_def)
  then obtain ys where ys: "js_sort (compare_created dp) xs = Inr ys"
    and app: "append_nodes ys (p\<lparr>list_items := []\<rparr>) = Inr p'"
    by (auto simp only: res_bind_eq_Inr)
  from ys have "set ys = set xs" by (rule js_sort_set)
  with assms(2) Arr have "list_all is_obj ys" by (simp add: list_all_iff)
  with projected_append_nodes [OF app projected_items_Nil] show ?thesis by simp
next
  case False
  then have "render_tasks dp v p = Inr (p\<lparr>list_items := []\<rparr>)"
    by (cases v) (simp_all add: render_tasks_def)
  with assms(1) have "p' = p\<lparr>list_items := []\<rparr>" by simp
  then show ?thesis by simp
qed

lemma map_pair_zip: "map (\<lambda>n. (f n, g n)) ns = zip (map f ns) (map g ns)"
  by (induction ns) simp_all

lemma toggle_row_projected:
  assumes "projected_row n" and "node_task n = Obj kvs" and "c \<noteq> Undef"
  shows "projected_row (n\<lparr>node_task := Obj (obj_set kvs (jstr ''completed'') c),
      title_done := class_toggle (title_done n) c,
      toggle_html := toggle_glyph (truthy c), toggle_tip := toggle_tooltip (truthy c)\<rparr>)"
  using projected_row_fields [OF assms(1,2)] assms(3) projected_row_def [of n]
  by (simp add: projected_row_def create_task_node_def)

subsection \<open>Each continuation implements its registry operation\<close>

lemma reg_add_finish:
  assumes "projected p" and "ok_reply dp PAdd (api_result out)"
  shows "rows_of (add_finish out p) = reg_resume dp PAdd (api_result out) (next_ref p) (rows_of p)
    \<and> projected (add_finish out p)"
proof (cases "api_result out")
  case (Inl e)
  with assms show ?thesis by (simp add: add_finish_failed)
next
  case (Inr t)
  with assms(2) have obj: "is_obj t" by simp
  then have "t \<noteq> Null \<and> t \<noteq> Undef" by (cases t) simp_all
  then obtain n where n: "create_task_node (next_ref p) t = Inr n"
    using create_task_node_Inr_iff [of "next_ref p" t] by blast
  with Inr have "add_finish out p = p\<lparr>list_items := TaskItem n # list_items p, next_ref := Suc (next_ref p),
      input_value := [], focus_calls := Suc (focus_calls p)\<rparr>"
    by (simp add: add_finish_def page_simps)
  with Inr assms(1) create_task_node_ref [OF n] create_task_node_projected [OF n obj] show ?thesis
    by (simp add: rows_of_def projected_def)
qed

lemma reg_delete_finish:
  assumes "projected p"
  shows "rows_of (delete_finish r out p) = reg_resume dp (PDelete r) (api_result out) (next_ref p) (rows_of p)
    \<and> projected (delete_finish r out p)"
proof (cases "api_result out")
  case (Inl e)
  with assms show ?thesis by (simp add: delete_finish_failed)
next
  case (Inr v)
  have rows: "rows_of (p\<lparr>list_items := remove_row r (list_items p)\<rparr>) = filter (\<lambda>(r', t). r' \<noteq> r) (rows_of p)"
    using rows_of_remove_row [where p = p and r = r and xs = "list_items p"] by simp
  have proj: "projected (p\<lparr>list_items := remove_row r (list_items p)\<rparr>)"
    using projected_remove_row [where p = p and r = r and xs = "list_items p"] assms by simp
  show ?thesis
  proof (cases "remove_row r (list_items p) = []")
    case True
    with rows have "filter (\<lambda>(r', t). r' \<noteq> r) (rows_of p) = []" by (simp add: rows_of_def)
    with True Inr show ?thesis by (simp add: delete_finish_ok rows_of_def)
  next
    case False
    with Inr rows proj show ?thesis by (simp add: delete_finish_ok)
  qed
qed

lemma task_nodes_map_TaskItem [simp]: "task_nodes (map TaskItem ns) = ns"
  by (induction ns) simp_all

lemma reg_load_finish:
  assumes "ok_reply dp PLoad (api_result out)"
  shows "rows_of (load_finish dp out p) = reg_resume dp PLoad (api_result out) (next_ref p) (rows_of p)
    \<and> projected (load_finish dp out p)"
proof (cases "api_result out")
  case (Inl e)
  then show ?thesis by (simp add: load_finish_failed rows_of_def)
next
  case (Inr v)
  note ok = this
  show ?thesis
  proof (cases "\<exists>xs. v = Arr xs")
    case True
    then obtain xs where Arr: "v = Arr xs" by blast
    with ok assms have vt: "valid_times dp xs" and objs: "list_all is_obj xs" by simp_all
    from render_tasks_valid [OF vt, of p] obtain ns where
      r: "render_tasks dp (Arr xs) p = Inr (p\<lparr>list_items := map TaskItem ns, next_ref := next_ref p + length xs\<rparr>)"
      and tasks: "map node_task ns = sort_key (\<lambda>t. - task_ms dp t) xs"
      and refs: "map node_ref ns = [next_ref p..<next_ref p + length xs]"
      by blast
    have "projected (p\<lparr>list_items := map TaskItem ns, next_ref := next_ref p + length xs\<rparr>)"
      using projected_render_tasks [OF r] objs by simp
    moreover have "rows_of (p\<lparr>list_items := map TaskItem ns, next_ref := next_ref p + length xs\<rparr>) =
        reg_load dp (next_ref p) xs"
      by (simp add: rows_of_def reg_load_def map_pair_zip tasks refs)
    ultimately show ?thesis using ok Arr r by (simp add: load_finish_ok)
  next
    case False
    then have "render_tasks dp v p = Inr (p\<lparr>list_items := []\<rparr>)"
      by (cases v) (simp_all add: render_tasks_def)
    moreover have "reg_resume dp PLoad (Inr v) (next_ref p) (rows_of p) = []"
      using False by (cases v) simp_all
    ultimately show ?thesis using ok by (simp add: load_finish_ok rows_of_def)
  qed
qed

lemma reg_toggle_finish:
  assumes "wf_page p" and "projected p" and "ok_reply dp (PToggle r) (api_result out)"
  shows "rows_of (toggle_finish r out p) = reg_resume dp (PToggle r) (api_result out) (next_ref p) (rows_of p)
    \<and> projected (toggle_finish r out p)"
proof (cases "api_result out")
  case (Inl e)
  with assms show ?thesis by (simp add: toggle_finish_failed)
next
  case (Inr u)
  note ok = this
  show ?thesis
  proof (cases "get_prop u (jstr ''completed'')")
    case (Inl e)
    with ok assms(2) show ?thesis by (simp add: toggle_finish_def page_simps)
  next
    case (Inr c)
    note got = this
    with ok assms(3) have c: "c \<noteq> Undef" by simp
    show ?thesis
    proof (cases "find_row r (list_items p)")
      case None
      then have "r \<notin> set (refs_of (list_items p))" by (simp add: find_row_None_iff)
      then have "map (\<lambda>(r', t). (r', if r' = r then set_completed t c else t)) (rows_of p) = rows_of p"
        by (auto simp: rows_of_def refs_of_def)
      with None ok got assms(2) show ?thesis by (simp add: toggle_finish_def page_simps)
    next
      case (Some n)
      from assms(2) Some have pn: "projected_row n" by (auto simp: projected_def dest: find_row_Some)
      then obtain kvs where kvs: "node_task n = Obj kvs"
        by (cases "node_task n") (simp_all add: projected_row_def)
      let ?n' = "n\<lparr>node_task := Obj (obj_set kvs (jstr ''completed'') c),
        title_done := class_toggle (title_done n) c,
        toggle_html := toggle_glyph (truthy c), toggle_tip := toggle_tooltip (truthy c)\<rparr>"
      have eq: "toggle_finish r out p = p\<lparr>list_items := replace_row r ?n' (list_items p)\<rparr>"
        by (rule toggle_finish_ok [OF ok got Some kvs])
      have r: "node_ref n = r" using find_row_Some [OF Some] by simp
      have uniq: "m = n" if "m \<in> set (task_nodes (list_items p))" "node_ref m = r" for m
        using assms(1) Some that by (auto simp: wf_page_def intro: wf_row_unique)
      have rows: "rows_of (p\<lparr>list_items := replace_row r ?n' (list_items p)\<rparr>) =
          map (\<lambda>(r', t). (r', if r' = r then set_completed t c else t)) (rows_of p)"
      proof -
        have "(node_ref (if node_ref m = r then ?n' else m), node_task (if node_ref m = r then ?n' else m)) =
            (node_ref m, if node_ref m = r then set_completed (node_task m) c else node_task m)"
          if "m \<in> set (task_nodes (list_items p))" for m
          using uniq [OF that] kvs r by auto
        then show ?thesis by (simp add: rows_of_def task_nodes_replace_row map_eq_conv)
      qed
      have "projected (p\<lparr>list_items := replace_row r ?n' (list_items p)\<rparr>)"
        using assms(2) toggle_row_projected [OF pn kvs c] by (auto simp: projected_def task_nodes_replace_row)
      with eq rows ok got show ?thesis by simp
    qed
  qed
qed

subsection \<open>A toggle against the storing server\<close>

lemma toggle_echo_obj:
  assumes "find_row r (list_items p) = Some n" and "node_task n = Obj kvs"
    and "obj_lookup kvs (jstr ''completed'') = Bool b"
  shows "toggle_echo r p = p\<lparr>list_items := replace_row r
     (n\<lparr>node_task := Obj (obj_set kvs (jstr ''completed'') (Bool (\<not> b))), title_done := \<not> b,
        toggle_html := toggle_glyph (\<not> b), toggle_tip := toggle_tooltip (\<not> b)\<rparr>) (list_items p)\<rparr>"
proof -
  let ?kvs1 = "obj_set kvs (jstr ''completed'') (Bool (\<not> b))"
  have start: "toggle_start r p = Some (api_request (47 # to_string (obj_lookup kvs (jstr ''id'')))
      (json_options PUT (Obj ?kvs1)))"
    using assms by (simp add: toggle_start_def toggle_request_obj)
  have "api_result (echo_server (api_request (47 # to_string (obj_lookup kvs (jstr ''id'')))
      (json_options PUT (Obj ?kvs1)))) = Inr (Obj ?kvs1)"
    by (simp add: echo_server_def api_request_def json_options_def response_ok_def)
  moreover have "get_prop (Obj ?kvs1) (jstr ''completed'') = Inr (Bool (\<not> b))" by simp
  ultimately show ?thesis
    using start toggle_finish_ok [OF _ _ assms(1,2)] by (simp add: toggle_echo_def)
qed

end
