(* ===== verification/Spec2Isabelle.thy ===== *)
theory Spec2Isabelle
  imports HandlerProps Registry
begin

text \<open>
  Verification development of the to-do list client \<^verbatim>\<open>src/task/app.js\<close>, a browser
  script that keeps a list of tasks (\<^verbatim>\<open>id\<close>, \<^verbatim>\<open>title\<close>, \<^verbatim>\<open>completed\<close>,
  \<^verbatim>\<open>createdAt\<close>) on a MockAPI REST resource and mirrors it in the
  \<^verbatim>\<open>tasksList\<close> element.

  \<^bold>\<open>The program.\<close> One wrapper, \<^verbatim>\<open>apiFetch\<close> (lines 10--25), performs every
  request: it fetches \<^verbatim>\<open>API_URL + path\<close>, throws on a non-2xx status, parses the body
  as JSON, and on any failure logs, alerts and rethrows. Four async handlers call it:
  \<^verbatim>\<open>loadTasks\<close> (71--85) shows a loading row, GETs the collection, sorts it by
  \<^verbatim>\<open>createdAt\<close> newest first and renders one row per task with \<^verbatim>\<open>createTaskNode\<close>
  (27--66); \<^verbatim>\<open>addTask\<close> (88--109) trims the input and POSTs a new task;
  \<^verbatim>\<open>toggleTask\<close> (112--128) PUTs the task with \<^verbatim>\<open>completed\<close> flipped and redraws
  its row from the reply; \<^verbatim>\<open>deleteTask\<close> (131--140) asks for confirmation, DELETEs
  and removes the row. The add button and the Enter key start \<^verbatim>\<open>addTask\<close>
  (143--146); the rows' buttons start toggle and delete; a start-up guard (149--153)
  alerts when \<^verbatim>\<open>API_URL\<close> is not configured and otherwise loads.

  \<^bold>\<open>Theories.\<close>
  \<^item> \<open>Prelude\<close>: strings as lists of UTF-16 code units (\<open>16 word\<close>), results as
    \<open>error + 'a\<close> sequenced by \<open>res_bind\<close>.
  \<^item> \<open>JsValue\<close>: the JavaScript values JSON produces (\<open>jv\<close>), with the parts of
    the language the code relies on: ToBoolean (\<open>truthy\<close>), \<^verbatim>\<open>||\<close>, property read
    and write with their TypeError on \<^verbatim>\<open>null\<close>/\<^verbatim>\<open>undefined\<close>, object spread,
    ToString, and \<^verbatim>\<open>new Date(x)\<close> with TimeClip.
  \<^item> \<open>JsString\<close>: \<^verbatim>\<open>String.prototype.trim\<close> (with the specification's white
    space set) and \<^verbatim>\<open>includes\<close>.
  \<^item> \<open>Transport\<close>: \<^verbatim>\<open>apiFetch\<close>, split at its await into the request
    (\<open>api_request\<close>) and its continuation (\<open>api_fetch_finish\<close>) on a settled
    fetch (\<open>fetch_outcome\<close>); the effects \<^verbatim>\<open>console.error\<close> and \<^verbatim>\<open>alert\<close>.
  \<^item> \<open>TaskSort\<close>: \<^verbatim>\<open>Array.prototype.sort\<close> as a stable insertion sort, the
    comparator of line 80 (\<open>compare_created\<close>), and the proof that with valid dates
    the sort is \<open>sort_key\<close> on the negated time (HOL-Library's \<open>Multiset\<close> and
    \<open>properties_for_sort_key\<close>).
  \<^item> \<open>View\<close>: the page state \<open>page\<close> (input value, number of \<^verbatim>\<open>focus()\<close>
    calls, the list's children, the log of effects, the element-reference counter),
    the rows built by \<^verbatim>\<open>createTaskNode\<close> (\<open>create_task_node\<close>), and the
    well-formedness invariant \<open>wf_page\<close>.
  \<^item> \<open>Handlers\<close>: each handler as \<open>*_start\<close> (synchronous prefix and request)
    and \<open>*_finish\<close> (continuation on the settled fetch), composed in
    \<open>load_tasks\<close>, \<open>add_task\<close>, \<open>toggle_task\<close>, \<open>delete_task\<close>; the key
    handler \<open>key_down\<close> and the start-up guard \<open>boot\<close>.
  \<^item> \<open>HandlerProps\<close>: the behaviour of each handler on every branch, with sample
    pages and replies that witness each property.
  \<^item> \<open>Interleaving\<close>: the page under the event loop. A world (\<open>world\<close>) is the page
    and the requests in flight, each tagged (\<open>pending\<close>) with the continuation
    waiting for it; \<open>world_step\<close> runs one event, a user action (typing, the add
    button, a key, a row's toggle or delete button) or the settling of any one
    request in flight (\<open>resume\<close> runs that handler's \<open>*_finish\<close>); \<open>run\<close>
    runs a sequence of events and \<open>reachable\<close> (an inductive relation) is what the
    start-up script (\<open>boot_world\<close>) and any events produce. \<open>keeps_refs\<close> says
    that row references only grow.
  \<^item> \<open>Registry\<close>: an abstract specification of the list after the spec's
    section 9, a registry of (element reference, task) entries (\<open>rows_of\<close>) of
    which the page is a projection (\<open>projected\<close>: every row is what
    \<^verbatim>\<open>createTaskNode\<close> builds from its entry); \<open>reg_resume\<close> is each continuation's
    operation on the registry, \<open>ok_reply\<close> the replies the spec's contract assumes.
    A server that stores the PUT body and returns it (\<open>echo_server\<close>, spec 6) and one
    toggle settled against it (\<open>toggle_echo\<close>).
  \<^item> this theory: the invariant across all handlers, the properties of the
    interleaved handlers, and the refinement of the registry.

  \<^bold>\<open>What the lemmas show.\<close> Transport: one alert per failed call, none on success
  (C10). Sorting: a permutation always (C13), sorted newest first and stable with
  valid dates (C12), the comparator inconsistent with an unparsable date (C20), the
  epoch for a falsy \<^verbatim>\<open>createdAt\<close> (C23). Handlers: load, add, toggle, delete on
  success, on failure and on their guards (C1--C9, C14, C15, C22), and the places
  where the code departs from the specification or from its own intent (C16--C19,
  C21). Every handler keeps \<open>wf_page\<close> (C11). Interleaved: every reachable world is
  well formed, by rule induction on \<open>reachable\<close> (C24); a removed row never comes
  back (C25); of two toggles in flight the last reply wins (C26); a load reply
  discards rows added meanwhile (C27); text typed during a POST is cleared by its
  reply (C28); a double click sends the same PUT twice (C29); all requests in flight
  can always settle (C30). Refinement: every continuation implements its registry
  operation and keeps the page a projection (C31); two toggles against the storing
  server restore the page (C32). The comparator's results stay within
  \<open>2 * 8.64e15 < 2^54\<close> (C33), which is what lets integers stand for the doubles of
  line 80: a double subtraction of two time values keeps the sign of the exact one.

  \<^bold>\<open>Choices.\<close> Every recursion is structural, so no fuel is needed and every
  definition is total and executable. Numbers are integers: the code only compares
  times and copies ids, and non-integral numbers play no part in it. \<^verbatim>\<open>Date.parse\<close>
  of a string is implementation-defined, so the date parser is a parameter
  (\<open>date_parser\<close>) of the sort and of loadTasks; the results hold for every parser.
  Request bodies are kept as the value given to \<^verbatim>\<open>JSON.stringify\<close>, and the
  outcome of \<^verbatim>\<open>res.json()\<close> is part of the fetch outcome. \<^verbatim>\<open>confirm\<close> is an
  input of deleteTask.

  The event loop is modelled at the granularity of the code's one await per
  handler: the awaits inside \<^verbatim>\<open>apiFetch\<close> (\<^verbatim>\<open>res.text()\<close>, \<^verbatim>\<open>res.json()\<close>)
  settle with the fetch: the code of apiFetch between them reads and writes no page
  state, so an event that runs between them has the effect it has when it runs
  just before the settle.

  \<^bold>\<open>Not modelled.\<close> The server (its replies are inputs, so a reply may be any
  value, stale or fresh; \<open>echo_server\<close> is one faithful server, used for C32); JSON
  encoding and decoding (the body is the value given to \<^verbatim>\<open>JSON.stringify\<close>, the
  parse outcome is part of the reply); markup and styling, including the rows'
  static class names and the delete button's label, which no handler reads.
\<close>

section \<open>Properties across the handlers\<close>

text \<open>C11: every handler, in each of its two halves, keeps the page well formed:
  the task rows carry distinct element references below the allocation counter, and
  each row's \<^verbatim>\<open>data-id\<close> is the string of its task's \<^verbatim>\<open>id\<close>. A load's continuation
  establishes it from any page, since it rebuilds the whole list.\<close>

theorem handlers_preserve_wf:
  assumes "wf_page p"
  shows "wf_page (fst (load_start p)) \<and> wf_page (load_finish dp out p)
    \<and> wf_page (fst (add_start p)) \<and> wf_page (add_finish out p)
    \<and> wf_page (toggle_finish r out p) \<and> wf_page (delete_finish r out p)"
  using assms by (simp add: wf_load_start wf_load_finish wf_add_start wf_add_finish
      wf_toggle_finish wf_delete_finish)

theorem handlers_preserve_wf_witness:
  "wf_page ex_row_page \<and> wf_page (fst (load_start ex_row_page))
    \<and> wf_page (load_finish ex_dp (Rejected []) ex_row_page)
    \<and> wf_page (fst (add_start ex_row_page)) \<and> wf_page (add_finish (Rejected []) ex_row_page)
    \<and> wf_page (toggle_finish 0 (Rejected []) ex_row_page) \<and> wf_page (delete_finish 0 (Rejected []) ex_row_page)"
  using handlers_preserve_wf [OF ex_row_page_wf] ex_row_page_wf by blast

section \<open>Properties of the interleaved handlers\<close>

text \<open>C24: every world the script can reach, whatever the user does and in whatever
  order the requests in flight settle, shows a well-formed page.\<close>

theorem reachable_wf_page:
  assumes "reachable dp url w"
  shows "wf_page (w_page w)"
  using assms
proof induction
  case reachable_boot
  show ?case by (rule wf_boot_world)
next
  case (reachable_step w e w')
  then show ?case by (blast intro: wf_step)
qed

theorem reachable_wf_page_witness:
  "reachable ex_dp api_url (the (world_step ex_dp (Settle 0 (Rejected [])) (boot_world api_url))) \<and>
   wf_page (w_page (the (world_step ex_dp (Settle 0 (Rejected [])) (boot_world api_url))))"
proof -
  have "world_step ex_dp (Settle 0 (Rejected [])) (boot_world api_url) =
      Some (the (world_step ex_dp (Settle 0 (Rejected [])) (boot_world api_url)))"
    by (simp add: boot_world_configured)
  then have h: "reachable ex_dp api_url (the (world_step ex_dp (Settle 0 (Rejected [])) (boot_world api_url)))"
    by (rule reachable_step [OF reachable_boot])
  show ?thesis using reachable_wf_page [OF h] h by blast
qed

text \<open>C25: a row that has left the list never comes back, under any later sequence
  of events; in particular a toggle whose reply arrives after the row was deleted
  or re-rendered leaves the list alone.\<close>

theorem removed_row_never_returns:
  assumes "run dp es w = Some w'" and "r \<notin> set (refs_of (list_items (w_page w)))"
    and "r < next_ref (w_page w)"
  shows "r \<notin> set (refs_of (list_items (w_page w')))"
  using keeps_refs_run [OF assms(1)] assms(2,3) by (auto simp: keeps_refs_def)

theorem removed_row_never_returns_witness:
  "run ex_dp [Settle 0 (Responded 200 [] (Inr ex_reply))]
     \<lparr>w_page = ex_page\<lparr>next_ref := 1\<rparr>, w_pending = [(PToggle 0, api_request (47 # jstr ''1'') default_options)]\<rparr> =
     Some \<lparr>w_page = ex_page\<lparr>next_ref := 1\<rparr>, w_pending = []\<rparr> \<and>
   0 \<notin> set (refs_of (list_items (ex_page\<lparr>next_ref := 1\<rparr>))) \<and> 0 < next_ref (ex_page\<lparr>next_ref := 1\<rparr>) \<and>
   0 \<notin> set (refs_of (list_items (w_page \<lparr>w_page = ex_page\<lparr>next_ref := 1\<rparr>, w_pending = []\<rparr>)))"
proof -
  have h1: "run ex_dp [Settle 0 (Responded 200 [] (Inr ex_reply))]
     \<lparr>w_page = ex_page\<lparr>next_ref := 1\<rparr>, w_pending = [(PToggle 0, api_request (47 # jstr ''1'') default_options)]\<rparr> =
     Some \<lparr>w_page = ex_page\<lparr>next_ref := 1\<rparr>, w_pending = []\<rparr>"
    by (simp add: toggle_finish_def page_simps response_ok_def ex_reply_def obj_lookup_def
        find_row_def ex_page_def del_at_def)
  have h2: "0 \<notin> set (refs_of (list_items (w_page \<lparr>w_page = ex_page\<lparr>next_ref := 1\<rparr>,
      w_pending = [(PToggle 0, api_request (47 # jstr ''1'') default_options)]\<rparr>)))"
    by (simp add: ex_page_def)
  have h3: "(0::nat) < next_ref (w_page \<lparr>w_page = ex_page\<lparr>next_ref := 1\<rparr>,
      w_pending = [(PToggle 0, api_request (47 # jstr ''1'') default_options)]\<rparr>)"
    by simp
  show ?thesis using removed_row_never_returns [OF h1 h2 h3] h1 h2 h3 by simp
qed

text \<open>C26: when two PUTs of the same row are in flight, the reply that settles last
  decides the row: the earlier one leaves no trace, whatever it said, provided the
  last reply carries \<^verbatim>\<open>completed\<close>.\<close>

theorem toggle_last_reply_wins:
  assumes "find_row r (list_items p) = Some n" and "node_task n = Obj kvs"
    and "api_result out1 = Inr u1" and "get_prop u1 (jstr ''completed'') = Inr v1"
    and "api_result out2 = Inr u2" and "get_prop u2 (jstr ''completed'') = Inr v2" and "v2 \<noteq> Undef"
  shows "toggle_finish r out2 (toggle_finish r out1 p) = toggle_finish r out2 p"
proof -
  let ?n1 = "n\<lparr>node_task := Obj (obj_set kvs (jstr ''completed'') v1),
        title_done := class_toggle (title_done n) v1,
        toggle_html := toggle_glyph (truthy v1), toggle_tip := toggle_tooltip (truthy v1)\<rparr>"
  have r: "node_ref n = r" using find_row_Some [OF assms(1)] by simp
  have first: "toggle_finish r out1 p = p\<lparr>list_items := replace_row r ?n1 (list_items p)\<rparr>"
    by (rule toggle_finish_ok [OF assms(3,4,1,2)])
  have "find_row r (replace_row r ?n1 (list_items p)) = Some ?n1"
    using find_row_replace_row [OF assms(1)] r by simp
  with first have "toggle_finish r out2 (toggle_finish r out1 p) =
      p\<lparr>list_items := replace_row r (?n1\<lparr>node_task := Obj (obj_set (obj_set kvs (jstr ''completed'') v1) (jstr ''completed'') v2),
        title_done := class_toggle (title_done ?n1) v2,
        toggle_html := toggle_glyph (truthy v2), toggle_tip := toggle_tooltip (truthy v2)\<rparr>)
        (replace_row r ?n1 (list_items p))\<rparr>"
    using toggle_finish_ok [OF assms(5,6)] by simp
  then show ?thesis using toggle_finish_ok [OF assms(5,6,1,2)] assms(7) r by simp
qed

theorem toggle_last_reply_wins_witness:
  "find_row 0 (list_items ex_row_page) = Some ex_row \<and>
   node_task ex_row = Obj [(jstr ''id'', Str (jstr ''1'')), (jstr ''title'', Str (jstr ''a'')),
     (jstr ''completed'', Bool False), (jstr ''createdAt'', Num 5)] \<and>
   api_result (Responded 200 [] (Inr ex_reply)) = Inr ex_reply \<and>
   get_prop ex_reply (jstr ''completed'') = Inr (Bool True) \<and>
   api_result (Responded 200 [] (Inr ex_reply_undone)) = Inr ex_reply_undone \<and>
   get_prop ex_reply_undone (jstr ''completed'') = Inr (Bool False) \<and> Bool False \<noteq> Undef \<and>
   toggle_finish 0 (Responded 200 [] (Inr ex_reply_undone)) (toggle_finish 0 (Responded 200 [] (Inr ex_reply)) ex_row_page) =
   toggle_finish 0 (Responded 200 [] (Inr ex_reply_undone)) ex_row_page"
proof -
  have h3: "api_result (Responded 200 [] (Inr ex_reply)) = Inr ex_reply" by (simp add: response_ok_def)
  have h4: "get_prop ex_reply (jstr ''completed'') = Inr (Bool True)" by (simp add: ex_reply_def js_simps)
  have h5: "api_result (Responded 200 [] (Inr ex_reply_undone)) = Inr ex_reply_undone" by (simp add: response_ok_def)
  have h6: "get_prop ex_reply_undone (jstr ''completed'') = Inr (Bool False)"
    by (simp add: ex_reply_undone_def js_simps)
  have h7: "Bool False \<noteq> Undef" by simp
  show ?thesis
    using toggle_last_reply_wins [OF ex_row_found ex_task1_obj h3 h4 h5 h6 h7]
      ex_row_found ex_task1_obj h3 h4 h5 h6 h7 by blast
qed

text \<open>C27: the reply of a load replaces whatever the list shows when it arrives: the
  page it leaves does not depend on the rows shown, so a task whose POST settled
  after the GET was sent and before its reply disappears from the list.\<close>

theorem load_reply_replaces_rows:
  assumes "i < length (w_pending w)" and "fst (w_pending w ! i) = PLoad"
  shows "world_step dp (Settle i out) w =
    Some \<lparr>w_page = load_finish dp out ((w_page w)\<lparr>list_items := []\<rparr>), w_pending = del_at i (w_pending w)\<rparr>"
  using assms by (simp add: load_finish_items)

theorem load_reply_replaces_rows_witness:
  "0 < length [(PLoad, api_request [] default_options)] \<and>
   fst ([(PLoad, api_request [] default_options)] ! 0) = PLoad \<and>
   world_step ex_dp (Settle 0 (Responded 200 [] (Inr (Arr []))))
     \<lparr>w_page = ex_row_page, w_pending = [(PLoad, api_request [] default_options)]\<rparr> =
   Some \<lparr>w_page = load_finish ex_dp (Responded 200 [] (Inr (Arr []))) (ex_row_page\<lparr>list_items := []\<rparr>),
     w_pending = []\<rparr> \<and>
   list_items (load_finish ex_dp (Responded 200 [] (Inr (Arr []))) (ex_row_page\<lparr>list_items := []\<rparr>)) = []"
proof -
  have h1: "0 < length (w_pending \<lparr>w_page = ex_row_page, w_pending = [(PLoad, api_request [] default_options)]\<rparr>)"
    by simp
  have h2: "fst (w_pending \<lparr>w_page = ex_row_page, w_pending = [(PLoad, api_request [] default_options)]\<rparr> ! 0) = PLoad"
    by simp
  have l: "list_items (load_finish ex_dp (Responded 200 [] (Inr (Arr []))) (ex_row_page\<lparr>list_items := []\<rparr>)) = []"
    by (simp add: load_finish_ok response_ok_def render_tasks_def)
  show ?thesis
    using load_reply_replaces_rows [OF h1 h2, of ex_dp "Responded 200 [] (Inr (Arr []))"] l
    by (simp add: del_at_def)
qed

text \<open>C28: text typed into the input while a POST is in flight is lost when the POST
  succeeds: the continuation clears the input whatever it holds by then, and adds
  one row.\<close>

theorem add_reply_clears_typed_input:
  assumes "i < length (w_pending w)" and "fst (w_pending w ! i) = PAdd"
    and "api_result out = Inr t" and "t \<noteq> Null \<and> t \<noteq> Undef"
  shows "\<exists>w'. run dp [Input s, Settle i out] w = Some w' \<and> input_value (w_page w') = []
    \<and> length (list_items (w_page w')) = Suc (length (list_items (w_page w)))"
proof -
  let ?p = "(w_page w)\<lparr>input_value := s\<rparr>"
  obtain n where "add_finish out ?p =
      ?p\<lparr>list_items := TaskItem n # list_items ?p, next_ref := Suc (next_ref ?p),
        input_value := [], focus_calls := Suc (focus_calls ?p)\<rparr>"
    using add_finish_ok [OF assms(3,4)] by blast
  then show ?thesis using assms(1,2) by simp
qed

theorem add_reply_clears_typed_input_witness:
  "0 < length [(PAdd, api_request [] (json_options POST (task_payload (jstr ''buy milk''))))] \<and>
   fst ([(PAdd, api_request [] (json_options POST (task_payload (jstr ''buy milk''))))] ! 0) = PAdd \<and>
   api_result (Responded 201 [] (Inr ex_task1)) = Inr ex_task1 \<and> ex_task1 \<noteq> Null \<and> ex_task1 \<noteq> Undef \<and>
   (\<exists>w'. run ex_dp [Input (jstr ''eggs''), Settle 0 (Responded 201 [] (Inr ex_task1))]
       \<lparr>w_page = ex_page, w_pending = [(PAdd, api_request [] (json_options POST (task_payload (jstr ''buy milk''))))]\<rparr>
       = Some w' \<and> input_value (w_page w') = [] \<and> length (list_items (w_page w')) = Suc (length (list_items ex_page)))"
proof -
  let ?w = "\<lparr>w_page = ex_page, w_pending = [(PAdd, api_request [] (json_options POST (task_payload (jstr ''buy milk''))))]\<rparr>"
  have h1: "0 < length (w_pending ?w)" by simp
  have h2: "fst (w_pending ?w ! 0) = PAdd" by simp
  have h3: "api_result (Responded 201 [] (Inr ex_task1)) = Inr ex_task1" by (simp add: response_ok_def)
  have h4: "ex_task1 \<noteq> Null \<and> ex_task1 \<noteq> Undef" by (simp add: ex_task1_def)
  show ?thesis using add_reply_clears_typed_input [OF h1 h2 h3 h4, of ex_dp "jstr ''eggs''"] h3 h4 by simp
qed

text \<open>C29: two clicks on a row's toggle button before the first PUT settles send the
  same PUT twice: both read the same \<^verbatim>\<open>task.completed\<close>, so the task ends toggled
  once, not back where it was.\<close>

theorem double_toggle_same_request:
  assumes "toggle_start r (w_page w) = Some req"
  shows "run dp [ClickToggle r, ClickToggle r] w =
    Some (w\<lparr>w_pending := w_pending w @ [(PToggle r, req), (PToggle r, req)]\<rparr>)"
  using assms toggle_start_Some_row [OF assms] by (simp add: issue_def)

theorem double_toggle_same_request_witness:
  "toggle_start 0 ex_row_page = Some (api_request (47 # jstr ''1'') (json_options PUT
      (Obj (obj_set [(jstr ''id'', Str (jstr ''1'')), (jstr ''title'', Str (jstr ''a'')),
        (jstr ''completed'', Bool False), (jstr ''createdAt'', Num 5)] (jstr ''completed'') (Bool True))))) \<and>
   run ex_dp [ClickToggle 0, ClickToggle 0] \<lparr>w_page = ex_row_page, w_pending = []\<rparr> =
     Some \<lparr>w_page = ex_row_page, w_pending =
       [(PToggle 0, api_request (47 # jstr ''1'') (json_options PUT
         (Obj (obj_set [(jstr ''id'', Str (jstr ''1'')), (jstr ''title'', Str (jstr ''a'')),
          (jstr ''completed'', Bool False), (jstr ''createdAt'', Num 5)] (jstr ''completed'') (Bool True))))),
        (PToggle 0, api_request (47 # jstr ''1'') (json_options PUT
         (Obj (obj_set [(jstr ''id'', Str (jstr ''1'')), (jstr ''title'', Str (jstr ''a'')),
          (jstr ''completed'', Bool False), (jstr ''createdAt'', Num 5)] (jstr ''completed'') (Bool True)))))]\<rparr>"
proof -
  have h: "toggle_start 0 (w_page \<lparr>w_page = ex_row_page, w_pending = []\<rparr>) =
      Some (api_request (47 # jstr ''1'') (json_options PUT
      (Obj (obj_set [(jstr ''id'', Str (jstr ''1'')), (jstr ''title'', Str (jstr ''a'')),
        (jstr ''completed'', Bool False), (jstr ''createdAt'', Num 5)] (jstr ''completed'') (Bool True)))))"
    using ex_row_found ex_task1_obj
    by (simp add: toggle_start_def toggle_request_obj js_simps)
  show ?thesis using double_toggle_same_request [OF h, of ex_dp] h by simp
qed



section \<open>The page as a projection of a task registry\<close>

lemma ex_row_page_projected: "projected ex_row_page"
  by (simp add: projected_def projected_row_def ex_row_page_def ex_page_def ex_row_def ex_task1_def
      create_task_node_def js_simps)

text \<open>C31: every handler's continuation refines its operation on the abstract
  registry of rows (spec 4.3 and 9): on a well-formed page that is a projection of its
  registry, a load replaces the registry by the collection sorted newest first, an add
  prepends the new task under the next reference, a toggle adopts the server's
  \<^verbatim>\<open>completed\<close> in the clicked row's task, a delete removes the row, and a failure
  changes nothing (a load's empties it); the page stays a projection.\<close>

theorem resume_refines_registry:
  assumes "wf_page p" and "projected p" and "ok_reply dp k (api_result out)"
  shows "rows_of (resume dp k out p) = reg_resume dp k (api_result out) (next_ref p) (rows_of p)
    \<and> projected (resume dp k out p)"
  using assms by (cases k) (simp_all add: reg_load_finish reg_add_finish reg_toggle_finish reg_delete_finish)

theorem resume_refines_registry_witness:
  "wf_page ex_row_page \<and> projected ex_row_page \<and>
   ok_reply ex_dp (PToggle 0) (api_result (Responded 200 [] (Inr ex_reply))) \<and>
   rows_of (resume ex_dp (PToggle 0) (Responded 200 [] (Inr ex_reply)) ex_row_page) =
     reg_resume ex_dp (PToggle 0) (api_result (Responded 200 [] (Inr ex_reply))) (next_ref ex_row_page)
       (rows_of ex_row_page) \<and>
   projected (resume ex_dp (PToggle 0) (Responded 200 [] (Inr ex_reply)) ex_row_page)"
proof -
  have h: "ok_reply ex_dp (PToggle 0) (api_result (Responded 200 [] (Inr ex_reply)))"
    by (simp add: response_ok_def ex_reply_def js_simps)
  show ?thesis using resume_refines_registry [OF ex_row_page_wf ex_row_page_projected h]
      ex_row_page_wf ex_row_page_projected h by blast
qed



end
